theory Spec2Isabelle
  imports Complex_Main "HOL-Library.Word"
begin

unbundle bit_operations_syntax

section \<open>HP-90EPC reader: frame decoder, stream synchroniser, connection manager\<close>

text \<open>
  A shallow embedding of the Go package \<^verbatim>\<open>reader\<close> (files \<^verbatim>\<open>reader/reader.go\<close> and
  \<^verbatim>\<open>reader/manager.go\<close>).

  \<^item> A Go \<^verbatim>\<open>byte\<close> is an \<open>8 word\<close>; a \<^verbatim>\<open>[]byte\<close> is a list of them.
  \<^item> A Go \<^verbatim>\<open>string\<close> is its list of UTF-8 bytes, so the Celsius unit (degree sign, then
    C) is the three bytes C2 B0 43 and the micro sign is the two bytes C2 B5.
  \<^item> A \<^verbatim>\<open>float64\<close> is read as the real number it stands for: the decoder's divisions and
    multiplications are taken exactly, rounding is not modelled.
  \<^item> A \<^verbatim>\<open>*T\<close> that may be nil is a \<open>T option\<close>.
\<close>

type_synonym byte = "8 word"

subsection \<open>Measurement (package model, as built by decodeFrame)\<close>

text \<open>
  The struct \<^verbatim>\<open>model.Measurement\<close> belongs to package \<^verbatim>\<open>model\<close>; its fields are the ones
  of the struct literal that ends \<^verbatim>\<open>decodeFrame\<close>.
\<close>

record Measurement =
  Value :: "real option"
  ValueStr :: string
  Unit :: string
  Mode :: string
  Auto :: bool
  Hold :: bool
  Rel :: bool
  LowBatt :: bool
  RawHex :: string

subsection \<open>parseDigit\<close>

text \<open>\<^verbatim>\<open>b &^= 1 << 7\<close> clears the top bit, then the switch maps ten 7-segment patterns.\<close>

definition parseDigit :: "byte \<Rightarrow> int" where
  "parseDigit b0 =
     (let b = b0 AND NOT (push_bit 7 1) in
      if b = 0x7d then 0
      else if b = 0x05 then 1
      else if b = 0x5b then 2
      else if b = 0x1f then 3
      else if b = 0x27 then 4
      else if b = 0x3e then 5
      else if b = 0x7e then 6
      else if b = 0x15 then 7
      else if b = 0x7f then 8
      else if b = 0x3f then 9
      else -1)"

subsection \<open>decodeFrame, section by section\<close>

text \<open>The test \<^verbatim>\<open>x&(1<<n) != 0\<close> that decodeFrame applies to every flag.\<close>

definition flag :: "byte \<Rightarrow> nat \<Rightarrow> bool" where
  "flag x n = (x AND push_bit n 1 \<noteq> 0)"

text \<open>Sign: \<^verbatim>\<open>sign := 1.0; if b[1]&(1<<3) != 0 { sign = -1.0 }\<close>.\<close>

definition frame_sign :: "byte list \<Rightarrow> real" where
  "frame_sign b = (if flag (b ! 1) 3 then -1 else 1)"

text \<open>
  Digits: for \<open>i = 0..3\<close>, \<^verbatim>\<open>hi := b[1+2*i] & 0x0F; lo := b[1+2*i+1] & 0x0F;
  db := (hi << 4) | lo; d := parseDigit(db)\<close>.
\<close>

definition digit_byte :: "byte list \<Rightarrow> nat \<Rightarrow> byte" where
  "digit_byte b i =
     (let hi = (b ! (1 + 2 * i)) AND 0x0F; lo = (b ! (1 + 2 * i + 1)) AND 0x0F
      in push_bit 4 hi OR lo)"

definition frame_digits :: "byte list \<Rightarrow> int list" where
  "frame_digits b = map (\<lambda>i. parseDigit (digit_byte b i)) [0, 1, 2, 3]"

text \<open>\<^verbatim>\<open>numeric\<close> starts true and is cleared by any digit \<^verbatim>\<open>d < 0\<close>.\<close>

definition frame_numeric :: "byte list \<Rightarrow> bool" where
  "frame_numeric b = list_all (\<lambda>d. \<not> d < 0) (frame_digits b)"

text \<open>\<^verbatim>\<open>intval := 0; if numeric { for i { intval = intval*10 + digits[i] } }\<close>.\<close>

definition frame_intval :: "byte list \<Rightarrow> int" where
  "frame_intval b =
     (if frame_numeric b then foldl (\<lambda>acc d. acc * 10 + d) 0 (frame_digits b) else 0)"

text \<open>Decimal point: the first set bit 3 among bytes 3, 5, 7 picks the divisor.\<close>

definition frame_div :: "byte list \<Rightarrow> real" where
  "frame_div b =
     (if flag (b ! 3) 3 then 1000
      else if flag (b ! 5) 3 then 100
      else if flag (b ! 7) 3 then 10
      else 1)"

text \<open>
  Prefix flags. The five tests are five separate \<^verbatim>\<open>if\<close> statements, run one after the
  other on the same variable \<^verbatim>\<open>floatval\<close>.
\<close>

definition isNano :: "byte list \<Rightarrow> bool" where "isNano b = flag (b ! 9) 2"
definition isMicro :: "byte list \<Rightarrow> bool" where "isMicro b = flag (b ! 9) 3"
definition isKilo :: "byte list \<Rightarrow> bool" where "isKilo b = flag (b ! 9) 1"
definition isMilli :: "byte list \<Rightarrow> bool" where "isMilli b = flag (b ! 10) 3"
definition isMega :: "byte list \<Rightarrow> bool" where "isMega b = flag (b ! 10) 1"

definition scale_prefix :: "byte list \<Rightarrow> real \<Rightarrow> real" where
  "scale_prefix b v0 =
     (let v1 = (if isNano b then v0 / 1000000000 else v0);
          v2 = (if isMicro b then v1 / 1000000 else v1);
          v3 = (if isMilli b then v2 / 1000 else v2);
          v4 = (if isKilo b then v3 * 1000 else v3);
          v5 = (if isMega b then v4 * 1000000 else v4)
      in v5)"

text \<open>
  \<^verbatim>\<open>floatval := float64(intval) / div; floatval *= sign\<close> is \<open>frame_base\<close>; the prefix
  flags then work on it.
\<close>

definition frame_base :: "byte list \<Rightarrow> real" where
  "frame_base b = real_of_int (frame_intval b) / frame_div b * frame_sign b"

definition frame_floatval :: "byte list \<Rightarrow> real" where
  "frame_floatval b = scale_prefix b (frame_base b)"

text \<open>Mode and flags.\<close>

definition isAC :: "byte list \<Rightarrow> bool" where "isAC b = flag (b ! 0) 3"
definition isDC :: "byte list \<Rightarrow> bool" where "isDC b = flag (b ! 0) 2"
definition isAuto :: "byte list \<Rightarrow> bool" where "isAuto b = flag (b ! 0) 1"
definition isPercent :: "byte list \<Rightarrow> bool" where "isPercent b = flag (b ! 10) 2"
definition isFarad :: "byte list \<Rightarrow> bool" where "isFarad b = flag (b ! 11) 3"
definition isOhm :: "byte list \<Rightarrow> bool" where "isOhm b = flag (b ! 11) 2"
definition isRel :: "byte list \<Rightarrow> bool" where "isRel b = flag (b ! 11) 1"
definition isHold :: "byte list \<Rightarrow> bool" where "isHold b = flag (b ! 11) 0"
definition isAmp :: "byte list \<Rightarrow> bool" where "isAmp b = flag (b ! 12) 3"
definition isVolt :: "byte list \<Rightarrow> bool" where "isVolt b = flag (b ! 12) 2"
definition isHz :: "byte list \<Rightarrow> bool" where "isHz b = flag (b ! 12) 1"
definition lowBatt :: "byte list \<Rightarrow> bool" where "lowBatt b = flag (b ! 12) 0"
definition isCelsius :: "byte list \<Rightarrow> bool" where "isCelsius b = ((b ! 13) AND 0x04 \<noteq> 0)"

text \<open>The UTF-8 bytes of the two string literals that are not ASCII.\<close>

definition str_celsius :: string where
  "str_celsius = [CHR 0xC2, CHR 0xB0, CHR ''C'']"

definition str_micro :: string where
  "str_micro = [CHR 0xC2, CHR 0xB5]"

text \<open>
  \<^verbatim>\<open>mode\<close>: AC, else DC, else empty; the Celsius case of the unit switch then sets it
  back to empty.
\<close>

definition frame_mode :: "byte list \<Rightarrow> string" where
  "frame_mode b =
     (let mode = (if isAC b then ''AC'' else if isDC b then ''DC'' else '''')
      in if isCelsius b then '''' else mode)"

text \<open>Unit base: the first case of the switch that holds.\<close>

definition frame_unit :: "byte list \<Rightarrow> string" where
  "frame_unit b =
     (if isCelsius b then str_celsius
      else if isPercent b then ''%''
      else if isFarad b then ''F''
      else if isOhm b then ''Ohm''
      else if isAmp b then ''A''
      else if isVolt b then ''V''
      else if isHz b then ''Hz''
      else '''')"

text \<open>Prefix string: the switch tests mega, kilo, milli, micro, nano in this order.\<close>

definition frame_prefix :: "byte list \<Rightarrow> string" where
  "frame_prefix b =
     (if isMega b then ''M''
      else if isKilo b then ''k''
      else if isMilli b then ''m''
      else if isMicro b then str_micro
      else if isNano b then ''n''
      else '''')"

text \<open>
  \<^verbatim>\<open>fullUnit\<close>: the prefix goes before the unit unless the unit is empty, percent or
  Celsius; then \<^verbatim>\<open>"MV"\<close> is rewritten to \<^verbatim>\<open>"mV"\<close>.
\<close>

definition frame_fullUnit :: "byte list \<Rightarrow> string" where
  "frame_fullUnit b =
     (let unit = frame_unit b;
          fullUnit = (if unit \<noteq> '''' \<and> unit \<noteq> ''%'' \<and> unit \<noteq> str_celsius
                      then frame_prefix b @ unit else unit)
      in if fullUnit = ''MV'' then ''mV'' else fullUnit)"

text \<open>
  ValueStr. \<^verbatim>\<open>%d\<close> is applied to digits only when \<^verbatim>\<open>numeric\<close> holds, that is to values
  \<open>0..9\<close>, each of which prints as one ASCII digit; \<open>s\<close> then has four bytes and
  \<^verbatim>\<open>s[0]..s[3]\<close> are in range.
\<close>

definition fmt_d :: "int \<Rightarrow> string" where
  "fmt_d d = [''0123456789'' ! nat d]"

definition frame_valueStr :: "byte list \<Rightarrow> string" where
  "frame_valueStr b =
     (if frame_numeric b then
        (let s = concat (map fmt_d (frame_digits b));
             s1 = (if flag (b ! 3) 3 then [s ! 0] @ ''.'' @ [s ! 1, s ! 2, s ! 3]
                   else if flag (b ! 5) 3 then [s ! 0, s ! 1] @ ''.'' @ [s ! 2, s ! 3]
                   else if flag (b ! 7) 3 then [s ! 0, s ! 1, s ! 2] @ ''.'' @ [s ! 3]
                   else s)
         in if frame_sign b < 0 then ''-'' @ s1 else s1)
      else ''????'')"

text \<open>\<^verbatim>\<open>valPtr\<close> is nil unless \<^verbatim>\<open>numeric\<close>.\<close>

definition frame_valPtr :: "byte list \<Rightarrow> real option" where
  "frame_valPtr b = (if frame_numeric b then Some (frame_floatval b) else None)"

text \<open>Raw hex: \<^verbatim>\<open>%02X\<close> of every byte, a space between two of them.\<close>

definition hex_digit :: "nat \<Rightarrow> char" where
  "hex_digit n = ''0123456789ABCDEF'' ! n"

definition hex2 :: "byte \<Rightarrow> string" where
  "hex2 x = [hex_digit (unat x div 16), hex_digit (unat x mod 16)]"

fun raw_hex :: "byte list \<Rightarrow> string" where
  "raw_hex [] = []"
| "raw_hex [x] = hex2 x"
| "raw_hex (x # y # ys) = hex2 x @ '' '' @ raw_hex (y # ys)"

text \<open>
  decodeFrame: nil (\<open>None\<close>) when the slice is not 14 bytes long, else the Measurement.
  Every index read above is below 14, so no read is out of range on that branch.
\<close>

definition decodeFrame :: "byte list \<Rightarrow> Measurement option" where
  "decodeFrame b =
     (if length b \<noteq> 14 then None
      else Some \<lparr> Value = frame_valPtr b,
                  ValueStr = frame_valueStr b,
                  Unit = frame_fullUnit b,
                  Mode = frame_mode b,
                  Auto = isAuto b,
                  Hold = isHold b,
                  Rel = isRel b,
                  LowBatt = lowBatt b,
                  RawHex = raw_hex b \<rparr>)"

subsection \<open>The stream synchroniser of RunLoop\<close>

text \<open>
  The read loop keeps \<^verbatim>\<open>frame := make([]byte, 14)\<close> and \<^verbatim>\<open>idx := 0\<close> across reads of
  one connection. A store \<^verbatim>\<open>frame[i] = b\<close> with \<open>i\<close> out of range is a run-time panic in
  Go: \<open>store\<close> returns \<open>None\<close> there.
\<close>

record sync_state =
  frame :: "byte list"
  idx :: nat

definition sync_init :: sync_state where
  "sync_init = \<lparr> frame = replicate 14 0, idx = 0 \<rparr>"

definition store :: "byte list \<Rightarrow> nat \<Rightarrow> byte \<Rightarrow> byte list option" where
  "store xs i v = (if i < length xs then Some (xs[i := v]) else None)"

text \<open>\<^verbatim>\<open>want := byte((idx + 1) << 4)\<close>: the shift is on an int, the conversion truncates.\<close>

definition want :: "nat \<Rightarrow> byte" where
  "want i = word_of_nat (push_bit 4 (i + 1))"

text \<open>
  The body of \<^verbatim>\<open>for i := 0; i < n; i++\<close> for one byte \<open>b\<close>. The result is the new state
  and, when the frame is complete, the frame handed to \<^verbatim>\<open>decodeFrame\<close>.
\<close>

definition sync_byte :: "sync_state \<Rightarrow> byte \<Rightarrow> (sync_state \<times> byte list option) option" where
  "sync_byte s b =
     (if b AND 0xF0 = want (idx s) then
        (case store (frame s) (idx s) b of
           None \<Rightarrow> None
         | Some fr \<Rightarrow>
             if idx s + 1 = 14 then Some (\<lparr> frame = fr, idx = 0 \<rparr>, Some fr)
             else Some (\<lparr> frame = fr, idx = idx s + 1 \<rparr>, None))
      else if b AND 0xF0 = 0x10 then
        (case store (frame s) 0 b of
           None \<Rightarrow> None
         | Some fr \<Rightarrow> Some (\<lparr> frame = fr, idx = 1 \<rparr>, None))
      else Some (s\<lparr> idx := 0 \<rparr>, None))"

text \<open>One read of \<open>n\<close> bytes: the frames completed while the bytes are consumed, in order.\<close>

fun feed :: "sync_state \<Rightarrow> byte list \<Rightarrow> (sync_state \<times> byte list list) option" where
  "feed s [] = Some (s, [])"
| "feed s (b # bs) =
     (case sync_byte s b of
        None \<Rightarrow> None
      | Some (s', out) \<Rightarrow>
          (case feed s' bs of
             None \<Rightarrow> None
           | Some (s'', fs) \<Rightarrow> Some (s'', (case out of None \<Rightarrow> [] | Some f \<Rightarrow> [f]) @ fs)))"

text \<open>Successive reads; a read of zero bytes is the empty chunk and changes nothing.\<close>

fun feed_chunks :: "sync_state \<Rightarrow> byte list list \<Rightarrow> (sync_state \<times> byte list list) option" where
  "feed_chunks s [] = Some (s, [])"
| "feed_chunks s (c # cs) =
     (case feed s c of
        None \<Rightarrow> None
      | Some (s', fs) \<Rightarrow>
          (case feed_chunks s' cs of
             None \<Rightarrow> None
           | Some (s'', gs) \<Rightarrow> Some (s'', fs @ gs)))"

text \<open>The positional tags of a frame: byte \<open>i\<close> has high nibble \<open>i + 1\<close>.\<close>

definition tagged :: "byte list \<Rightarrow> bool" where
  "tagged f = (length f = 14 \<and> list_all (\<lambda>i. (f ! i) AND 0xF0 = want i) [0..<14])"

text \<open>The buffer has its 14 bytes and the cursor is inside it.\<close>

definition sync_wf :: "sync_state \<Rightarrow> bool" where
  "sync_wf s = (length (frame s) = 14 \<and> idx s < 14)"

text \<open>
  The invariant of a run: the first \<open>idx\<close> bytes of the buffer are the last \<open>idx\<close> bytes
  consumed, and they carry the tags of their positions.
\<close>

definition sync_inv :: "byte list \<Rightarrow> sync_state \<Rightarrow> bool" where
  "sync_inv pre s =
     (sync_wf s \<and> (\<exists>q. pre = q @ take (idx s) (frame s)) \<and>
      (\<forall>i<idx s. (frame s ! i) AND 0xF0 = want i))"

subsection \<open>RunLoop as a state machine\<close>

text \<open>
  RunLoop talks to the outside at four places: the checks of \<^verbatim>\<open>ctx.Done()\<close>,
  \<^verbatim>\<open>serial.OpenPort\<close>, \<^verbatim>\<open>s.Read\<close> and the two \<^verbatim>\<open>time.After\<close> waits. An event is what the
  outside answers; a phase is the place where RunLoop waits for it.

  \<^item> \<open>Connecting\<close>: top of the reconnect loop, before the cancellation check.
  \<^item> \<open>OpenBackoff\<close>: in the \<^verbatim>\<open>select\<close> after a failed open (600 ms).
  \<^item> \<open>Streaming s\<close>: top of the read loop, synchroniser state \<open>s\<close>, port open.
  \<^item> \<open>ReadBackoff\<close>: the read loop has returned an error and the deferred
    \<^verbatim>\<open>s.Close()\<close> has run; RunLoop is at \<^verbatim>\<open>if ctx.Err() != nil\<close> or in the \<^verbatim>\<open>select\<close>
    after it (400 ms).
  \<^item> \<open>Returned e\<close>: RunLoop has returned \<open>e\<close>.
  \<^item> \<open>Panicked\<close>: an index panic unwound the goroutine.

  The context comes from \<^verbatim>\<open>context.WithCancel(context.Background())\<close>, so \<^verbatim>\<open>ctx.Err()\<close>
  is \<^verbatim>\<open>context.Canceled\<close> once it is done.
\<close>

datatype go_error = Canceled | IOError string

fun error_text :: "go_error \<Rightarrow> string" where
  "error_text Canceled = ''context canceled''"
| "error_text (IOError e) = e"

datatype phase = Connecting | OpenBackoff | Streaming sync_state | ReadBackoff
  | Returned go_error | Panicked

datatype event = CtxDone | OpenResult "string option" | ReadResult "string + byte list"
  | TimerFired

datatype action = OpenPort | Close | Slept nat | SetLatest Measurement | Push Measurement
  | FrameOK

text \<open>
  A completed frame: \<^verbatim>\<open>m := decodeFrame(frame); if m != nil { latest.Set(m);
  logger.Push(m); onFrameOK(); frames++ }\<close> (the three collaborators are the ones the
  manager passes, none of them nil).
\<close>

definition deliver :: "byte list \<Rightarrow> action list" where
  "deliver f = (case decodeFrame f of None \<Rightarrow> [] | Some m \<Rightarrow> [SetLatest m, Push m, FrameOK])"

fun loop_step :: "phase \<Rightarrow> event \<Rightarrow> phase \<times> action list" where
  "loop_step Connecting CtxDone = (Returned Canceled, [])"
| "loop_step Connecting (OpenResult None) = (Streaming sync_init, [OpenPort])"
| "loop_step Connecting (OpenResult (Some e)) = (OpenBackoff, [OpenPort])"
| "loop_step OpenBackoff CtxDone = (Returned Canceled, [])"
| "loop_step OpenBackoff TimerFired = (Connecting, [Slept 600])"
| "loop_step (Streaming s) CtxDone = (Returned Canceled, [Close])"
| "loop_step (Streaming s) (ReadResult (Inl e)) = (ReadBackoff, [Close])"
| "loop_step (Streaming s) (ReadResult (Inr bs)) =
     (case feed s bs of
        None \<Rightarrow> (Panicked, [Close])
      | Some (s', fs) \<Rightarrow> (Streaming s', concat (map deliver fs)))"
| "loop_step ReadBackoff CtxDone = (Returned Canceled, [])"
| "loop_step ReadBackoff TimerFired = (Connecting, [Slept 400])"
| "loop_step ph ev = (ph, [])"

subsection \<open>Manager\<close>

text \<open>
  A \<^verbatim>\<open>time.Time\<close> is the count of nanoseconds since the zero time, \<^verbatim>\<open>IsZero\<close> is the
  test for 0; \<open>now\<close> is a parameter. \<^verbatim>\<open>time.Since(t)\<close> is \<^verbatim>\<open>Now().Sub(t)\<close>, a
  \<^verbatim>\<open>Duration\<close> (int64 nanoseconds) that \<^verbatim>\<open>Sub\<close> saturates at its two ends.
\<close>

definition maxDuration :: int where "maxDuration = 2 ^ 63 - 1"
definition minDuration :: int where "minDuration = - (2 ^ 63)"
definition Second :: int where "Second = 1000000000"

definition IsZero :: "int \<Rightarrow> bool" where
  "IsZero t = (t = 0)"

definition Since :: "int \<Rightarrow> int \<Rightarrow> int" where
  "Since now t = max minDuration (min maxDuration (now - t))"

record Status =
  Port :: string
  Baud :: int
  Connected :: bool
  LastFrameAt :: int
  LastError :: string

text \<open>
  The fields of \<^verbatim>\<open>Manager\<close> but the mutex and the two collaborators. \<open>cancel\<close> is the
  \<^verbatim>\<open>context.CancelFunc\<close>: \<open>None\<close> for nil, \<open>Some k\<close> for the function that cancels
  context \<open>k\<close>.
\<close>

record Manager =
  cancel :: "nat option"
  running :: bool
  staleAfter :: int
  status :: Status

text \<open>
  The manager together with the contexts made so far: \<open>ctxs ! k\<close> says whether context
  \<open>k\<close> is cancelled. Every context belongs to the one RunLoop goroutine that Start
  launched with it.
\<close>

record world =
  mgr :: Manager
  ctxs :: "bool list"

definition NewManager :: "int \<Rightarrow> world" where
  "NewManager stale =
     (let stale' = (if stale \<le> 0 then 3 * Second else stale)
      in \<lparr> mgr = \<lparr> cancel = None, running = False, staleAfter = stale',
                    status = \<lparr> Port = '''', Baud = 0, Connected = False, LastFrameAt = 0,
                               LastError = '''' \<rparr> \<rparr>,
           ctxs = [] \<rparr>)"

definition GetStatus :: "int \<Rightarrow> Manager \<Rightarrow> Status" where
  "GetStatus now m =
     (let st = status m; stale = staleAfter m
      in if \<not> IsZero (LastFrameAt st) \<and> Since now (LastFrameAt st) \<le> stale \<and> LastError st = ''''
         then st\<lparr> Connected := True \<rparr>
         else st\<lparr> Connected := False \<rparr>)"

text \<open>Calling a CancelFunc marks its context as done; calling it again changes nothing.\<close>

definition call_cancel :: "nat \<Rightarrow> bool list \<Rightarrow> bool list" where
  "call_cancel k cs = cs[k := True]"

text \<open>
  Start, up to \<^verbatim>\<open>m.mu.Unlock()\<close>; the goroutine it launches runs RunLoop with the new
  context. The result is the new world and the returned error (\<open>None\<close> for nil).
\<close>

definition Start :: "string \<Rightarrow> int \<Rightarrow> world \<Rightarrow> world \<times> go_error option" where
  "Start port baud w =
     (let m = mgr w;
          hit = (running m \<and> cancel m \<noteq> None);
          cs1 = (if hit then call_cancel (the (cancel m)) (ctxs w) else ctxs w);
          m1 = (if hit then m\<lparr> running := False \<rparr> else m);
          k = length cs1;
          m2 = m1\<lparr> cancel := Some k, running := True,
                   status := (status m1)\<lparr> Port := port, Baud := baud, Connected := False,
                                          LastError := '''' \<rparr> \<rparr>
      in (\<lparr> mgr = m2, ctxs = cs1 @ [False] \<rparr>, None))"

definition Stop :: "world \<Rightarrow> world" where
  "Stop w =
     (let m = mgr w;
          cs1 = (case cancel m of None \<Rightarrow> ctxs w | Some k \<Rightarrow> call_cancel k (ctxs w))
      in \<lparr> mgr = m\<lparr> running := False, status := (status m)\<lparr> Connected := False \<rparr> \<rparr>,
           ctxs = cs1 \<rparr>)"

definition SetPort :: "string \<Rightarrow> int \<Rightarrow> world \<Rightarrow> world \<times> go_error option" where
  "SetPort port baud w = Start port baud w"

text \<open>
  The goroutine of Start. \<open>on_action\<close> is what an action of RunLoop does to the status:
  only \<^verbatim>\<open>onFrameOK\<close> touches it. \<open>on_return\<close> is the code after RunLoop has returned
  \<open>err\<close>: \<^verbatim>\<open>if err != nil && !errors.Is(err, context.Canceled)\<close>.
\<close>

definition on_action :: "int \<Rightarrow> action \<Rightarrow> Status \<Rightarrow> Status" where
  "on_action now a st =
     (case a of FrameOK \<Rightarrow> st\<lparr> LastFrameAt := now, LastError := '''' \<rparr> | _ \<Rightarrow> st)"

definition on_return :: "go_error \<Rightarrow> Status \<Rightarrow> Status" where
  "on_return err st = (if err \<noteq> Canceled then st\<lparr> LastError := error_text err \<rparr> else st)"

text \<open>
  The goroutine run against a script of timed events: the phase reached, the status as
  the callbacks left it, and the actions in order. It stops when RunLoop has returned.
\<close>

fun goroutine :: "(int \<times> event) list \<Rightarrow> phase \<Rightarrow> Status \<Rightarrow> phase \<times> Status \<times> action list" where
  "goroutine [] ph st = (ph, st, [])"
| "goroutine ((now, ev) # es) ph st =
     (let (ph', acts) = loop_step ph ev;
          st1 = foldl (\<lambda>s a. on_action now a s) st acts
      in case ph' of
           Returned err \<Rightarrow> (ph', on_return err st1, acts)
         | _ \<Rightarrow> (let (ph'', st2, acts') = goroutine es ph' st1 in (ph'', st2, acts @ acts')))"

text \<open>
  A history of the manager: calls of Start and Stop, and \<^verbatim>\<open>onFrameOK\<close> callbacks of a
  running loop at the time given.
\<close>

datatype op = OpStart string int | OpStop | OpFrameOK int

fun apply_op :: "world \<Rightarrow> op \<Rightarrow> world" where
  "apply_op w (OpStart port baud) = fst (Start port baud w)"
| "apply_op w OpStop = Stop w"
| "apply_op w (OpFrameOK now) =
     w\<lparr> mgr := (mgr w)\<lparr> status := on_action now FrameOK (status (mgr w)) \<rparr> \<rparr>"

definition history :: "int \<Rightarrow> op list \<Rightarrow> world" where
  "history stale ops = foldl apply_op (NewManager stale) ops"

text \<open>
  What every history keeps: the CancelFunc held by the manager belongs to the context
  made last, every older context is cancelled, and a manager that is not running holds
  no context that is still live.
\<close>

definition mgr_inv :: "world \<Rightarrow> bool" where
  "mgr_inv w =
     (case cancel (mgr w) of
        None \<Rightarrow> ctxs w = [] \<and> \<not> running (mgr w)
      | Some k \<Rightarrow> Suc k = length (ctxs w) \<and> list_all id (take k (ctxs w)) \<and>
                  (running (mgr w) \<or> ctxs w ! k))"

text \<open>A world used as concrete input: a loop on COM3 that got a frame at second 5.\<close>

definition world_streaming :: world where
  "world_streaming = history 0 [OpStart ''COM3'' 2400, OpFrameOK (5 * Second)]"

text \<open>RunLoop has returned an error other than \<^verbatim>\<open>context.Canceled\<close>.\<close>

fun returned_io :: "phase \<Rightarrow> bool" where
  "returned_io (Returned (IOError e)) = True"
| "returned_io ph = False"

subsection \<open>What the specification says, for comparison with the code\<close>

text \<open>The ten patterns of the 7-segment table (the case labels of parseDigit).\<close>

definition seg_table :: "byte set" where
  "seg_table = {0x7d, 0x05, 0x5b, 0x1f, 0x27, 0x3e, 0x7e, 0x15, 0x7f, 0x3f}"

text \<open>
  The specification's prefix rule: at most one prefix is applied, the first that is set
  in the order nano, micro, milli, kilo, mega.
\<close>

definition spec_prefix_factor :: "byte list \<Rightarrow> real" where
  "spec_prefix_factor b =
     (if isNano b then 1 / 1000000000
      else if isMicro b then 1 / 1000000
      else if isMilli b then 1 / 1000
      else if isKilo b then 1000
      else if isMega b then 1000000
      else 1)"

definition spec_prefix_letter :: "byte list \<Rightarrow> string" where
  "spec_prefix_letter b =
     (if isNano b then ''n''
      else if isMicro b then str_micro
      else if isMilli b then ''m''
      else if isKilo b then ''k''
      else if isMega b then ''M''
      else '''')"

text \<open>
  The specification's unit rule: the prefix letter goes with the base unit, percent and
  Celsius never take one.
\<close>

definition spec_unit :: "byte list \<Rightarrow> string" where
  "spec_unit b =
     (if frame_unit b = ''%'' \<or> frame_unit b = str_celsius then frame_unit b
      else spec_prefix_letter b @ frame_unit b)"

text \<open>The number of prefix flags set in a frame.\<close>

definition prefix_count :: "byte list \<Rightarrow> nat" where
  "prefix_count b = length (filter id [isNano b, isMicro b, isMilli b, isKilo b, isMega b])"

subsection \<open>Frames used as concrete inputs\<close>

text \<open>
  Digits 1, 2, 3, 4 (patterns 05, 5B, 1F, 27), decimal point at byte 7, DC, Volt, no
  sign, no prefix.
\<close>

definition frame_1234 :: "byte list" where
  "frame_1234 =
     [0x14, 0x20, 0x35, 0x45, 0x5B, 0x61, 0x7F, 0x8A, 0x97, 0xA0, 0xB0, 0xC0, 0xD4, 0xE0]"

text \<open>The same frame with the first digit pattern 00, which is not in the table.\<close>

definition frame_bad_digit :: "byte list" where
  "frame_bad_digit =
     [0x14, 0x20, 0x30, 0x45, 0x5B, 0x61, 0x7F, 0x8A, 0x97, 0xA0, 0xB0, 0xC0, 0xD4, 0xE0]"

text \<open>Digits 0, 0, 0, 1, no decimal point, DC, Volt, nano and micro both set (byte 9).\<close>

definition frame_nano_micro :: "byte list" where
  "frame_nano_micro =
     [0x14, 0x27, 0x3D, 0x47, 0x5D, 0x67, 0x7D, 0x80, 0x95, 0xAC, 0xB0, 0xC0, 0xD4, 0xE0]"

text \<open>Digits 1, 2, 3, 4, no decimal point, DC, Volt, mega set (byte 10 bit 1).\<close>

definition frame_mega_volt :: "byte list" where
  "frame_mega_volt =
     [0x14, 0x20, 0x35, 0x45, 0x5B, 0x61, 0x7F, 0x82, 0x97, 0xA0, 0xB2, 0xC0, 0xD4, 0xE0]"

text \<open>
  First digit pattern 00 (not in the table); AC and auto (byte 0), kilo (byte 9), Ohm, rel
  and hold (byte 11), low battery (byte 12).
\<close>

definition frame_bad_flags :: "byte list" where
  "frame_bad_flags =
     [0x1A, 0x20, 0x30, 0x45, 0x5B, 0x61, 0x7F, 0x82, 0x97, 0xA2, 0xB0, 0xC7, 0xD1, 0xE0]"

section \<open>Properties of the decoder\<close>

lemmas flag_defs = flag_def
  isNano_def isMicro_def isKilo_def isMilli_def isMega_def isAC_def isDC_def isAuto_def
  isPercent_def isFarad_def isOhm_def isRel_def isHold_def isAmp_def isVolt_def isHz_def
  lowBatt_def isCelsius_def

lemmas digit_defs = frame_numeric_def frame_digits_def digit_byte_def parseDigit_def
  frame_intval_def

lemmas dec_defs = decodeFrame_def frame_valPtr_def frame_valueStr_def frame_fullUnit_def
  frame_mode_def frame_unit_def frame_prefix_def frame_floatval_def frame_base_def
  scale_prefix_def frame_div_def frame_sign_def fmt_d_def str_celsius_def str_micro_def

subsection \<open>Digits\<close>

lemma mask7: "(NOT (push_bit 7 1) :: byte) = 0x7F"
  by simp

lemma parseDigit_range: "parseDigit x \<in> {-1, 0, 1, 2, 3, 4, 5, 6, 7, 8, 9}"
  by (simp add: parseDigit_def Let_def)

lemma parseDigit_neg_iff: "(parseDigit x < 0) = (x AND 0x7F \<notin> seg_table)"
  by (simp add: parseDigit_def Let_def mask7 seg_table_def del: push_bit_of_1)

lemma ex_less_4: "(\<exists>i<4::nat. P i) = (P 0 \<or> P 1 \<or> P 2 \<or> P 3)"
proof
  assume "\<exists>i<4::nat. P i"
  then obtain i where "i < 4" "P i" by blast
  then have "i = 0 \<or> i = 1 \<or> i = 2 \<or> i = 3" by arith
  with \<open>P i\<close> show "P 0 \<or> P 1 \<or> P 2 \<or> P 3" by blast
next
  assume "P 0 \<or> P 1 \<or> P 2 \<or> P 3"
  moreover have "(0::nat) < 4" "(1::nat) < 4" "(2::nat) < 4" "(3::nat) < 4" by simp_all
  ultimately show "\<exists>i<4::nat. P i" by blast
qed

lemma not_numeric_iff:
  "(\<not> frame_numeric b) = (\<exists>i<4. digit_byte b i AND 0x7F \<notin> seg_table)"
  unfolding ex_less_4
  by (simp add: frame_numeric_def frame_digits_def parseDigit_neg_iff)

subsection \<open>The fields that come from the flag bytes\<close>

lemma flags_agree_unit:
  assumes "b' ! 10 = b ! 10" "b' ! 11 = b ! 11" "b' ! 12 = b ! 12" "b' ! 13 = b ! 13"
  shows "frame_unit b' = frame_unit b"
  using assms
  by (simp add: frame_unit_def isCelsius_def isPercent_def isFarad_def isOhm_def isAmp_def
      isVolt_def isHz_def)

lemma flags_agree_prefix:
  assumes "b' ! 9 = b ! 9" "b' ! 10 = b ! 10"
  shows "frame_prefix b' = frame_prefix b"
  using assms
  by (simp add: frame_prefix_def isMega_def isKilo_def isMilli_def isMicro_def isNano_def)

lemma flags_agree_fullUnit:
  assumes "b' ! 9 = b ! 9" "b' ! 10 = b ! 10" "b' ! 11 = b ! 11" "b' ! 12 = b ! 12"
    "b' ! 13 = b ! 13"
  shows "frame_fullUnit b' = frame_fullUnit b"
  by (simp only: frame_fullUnit_def flags_agree_unit [OF assms(2-5)]
      flags_agree_prefix [OF assms(1,2)])

lemma flags_agree_mode:
  assumes "b' ! 0 = b ! 0" "b' ! 13 = b ! 13"
  shows "frame_mode b' = frame_mode b"
  using assms by (simp add: frame_mode_def isAC_def isDC_def isCelsius_def)

lemma flags_agree_bits:
  assumes "b' ! 0 = b ! 0" "b' ! 11 = b ! 11" "b' ! 12 = b ! 12"
  shows "isAuto b' = isAuto b" "isHold b' = isHold b" "isRel b' = isRel b"
    "lowBatt b' = lowBatt b"
  using assms by (simp_all add: isAuto_def isHold_def isRel_def lowBatt_def)

lemma fullUnit_cases:
  "frame_fullUnit b =
     (if frame_unit b = '''' \<or> frame_unit b = ''%'' \<or> frame_unit b = str_celsius
      then frame_unit b
      else if isMega b \<and> frame_unit b = ''V'' then ''mV''
      else frame_prefix b @ frame_unit b)"
  by (simp add: frame_fullUnit_def frame_unit_def frame_prefix_def str_celsius_def str_micro_def)

lemma flag_bit: "flag x n = bit x n"
  unfolding flag_def by (rule bit_iff_and_push_bit_not_eq_0 [symmetric])

lemma celsius_bit: "isCelsius b = bit (b ! 13) 2"
proof -
  have "((b ! 13) AND 0x04 \<noteq> 0) = flag (b ! 13) 2" by (simp add: flag_def)
  then show ?thesis by (simp add: isCelsius_def flag_bit)
qed

lemma frame_unit_bits:
  "frame_unit b =
     (if bit (b ! 13) 2 then str_celsius
      else if bit (b ! 10) 2 then ''%''
      else if bit (b ! 11) 3 then ''F''
      else if bit (b ! 11) 2 then ''Ohm''
      else if bit (b ! 12) 3 then ''A''
      else if bit (b ! 12) 2 then ''V''
      else if bit (b ! 12) 1 then ''Hz''
      else '''')"
  by (simp only: frame_unit_def celsius_bit isPercent_def isFarad_def isOhm_def isAmp_def
      isVolt_def isHz_def flag_bit)

lemma frame_prefix_bits:
  "frame_prefix b =
     (if bit (b ! 10) 1 then ''M''
      else if bit (b ! 9) 1 then ''k''
      else if bit (b ! 10) 3 then ''m''
      else if bit (b ! 9) 3 then str_micro
      else if bit (b ! 9) 2 then ''n''
      else '''')"
  by (simp only: frame_prefix_def isMega_def isKilo_def isMilli_def isMicro_def isNano_def
      flag_bit)

lemma frame_mode_bits:
  "frame_mode b =
     (if bit (b ! 13) 2 then ''''
      else if bit (b ! 0) 3 then ''AC''
      else if bit (b ! 0) 2 then ''DC''
      else '''')"
  by (simp add: frame_mode_def celsius_bit isAC_def isDC_def flag_bit)

lemma fullUnit_bits:
  "frame_fullUnit b =
     (if frame_unit b = '''' \<or> frame_unit b = ''%'' \<or> frame_unit b = str_celsius
      then frame_unit b
      else if bit (b ! 10) 1 \<and> frame_unit b = ''V'' then ''mV''
      else frame_prefix b @ frame_unit b)"
  using fullUnit_cases [of b] by (simp only: isMega_def flag_bit)

subsection \<open>The value\<close>

lemma decode_numeric:
  assumes "length b = 14" and "frame_numeric b"
  shows "decodeFrame b = Some \<lparr> Value = Some (scale_prefix b (frame_base b)),
      ValueStr = frame_valueStr b, Unit = frame_fullUnit b, Mode = frame_mode b,
      Auto = isAuto b, Hold = isHold b, Rel = isRel b, LowBatt = lowBatt b,
      RawHex = raw_hex b \<rparr>"
  using assms by (simp add: decodeFrame_def frame_valPtr_def frame_floatval_def)

lemma scale_prefix_product:
  "scale_prefix b v =
     v * (if isNano b then 1 / 1000000000 else 1) * (if isMicro b then 1 / 1000000 else 1) *
         (if isMilli b then 1 / 1000 else 1) * (if isKilo b then 1000 else 1) *
         (if isMega b then 1000000 else 1)"
  by (simp add: scale_prefix_def)

lemma scale_prefix_single:
  assumes "prefix_count b \<le> 1"
  shows "scale_prefix b v = v * spec_prefix_factor b"
proof -
  consider "isNano b" | "\<not> isNano b" "isMicro b" | "\<not> isNano b" "\<not> isMicro b" "isMilli b"
    | "\<not> isNano b" "\<not> isMicro b" "\<not> isMilli b" "isKilo b"
    | "\<not> isNano b" "\<not> isMicro b" "\<not> isMilli b" "\<not> isKilo b"
    by blast
  then show ?thesis
  proof cases
    case 1
    with assms have "\<not> isMicro b" "\<not> isMilli b" "\<not> isKilo b" "\<not> isMega b"
      by (auto simp add: prefix_count_def split: if_splits)
    with 1 show ?thesis by (simp add: scale_prefix_def spec_prefix_factor_def)
  next
    case 2
    with assms have "\<not> isMilli b" "\<not> isKilo b" "\<not> isMega b"
      by (auto simp add: prefix_count_def split: if_splits)
    with 2 show ?thesis by (simp add: scale_prefix_def spec_prefix_factor_def)
  next
    case 3
    with assms have "\<not> isKilo b" "\<not> isMega b"
      by (auto simp add: prefix_count_def split: if_splits)
    with 3 show ?thesis by (simp add: scale_prefix_def spec_prefix_factor_def)
  next
    case 4
    with assms have "\<not> isMega b"
      by (auto simp add: prefix_count_def split: if_splits)
    with 4 show ?thesis by (simp add: scale_prefix_def spec_prefix_factor_def)
  next
    case 5
    then show ?thesis by (simp add: scale_prefix_def spec_prefix_factor_def)
  qed
qed

subsection \<open>The concrete frames\<close>

lemma decode_1234:
  "decodeFrame frame_1234 = Some \<lparr> Value = Some 123.4, ValueStr = ''123.4'', Unit = ''V'',
     Mode = ''DC'', Auto = False, Hold = False, Rel = False, LowBatt = False,
     RawHex = raw_hex frame_1234 \<rparr>"
  by (simp add: frame_1234_def dec_defs digit_defs flag_defs)

lemma tagged_1234: "tagged frame_1234"
  by (simp add: tagged_def frame_1234_def want_def push_bit_eq_mult upt_rec)

lemma encoding_1234:
  "frame_digits frame_1234 = [1, 2, 3, 4]"
  "flag (frame_1234 ! 7) 3" "\<not> flag (frame_1234 ! 3) 3" "\<not> flag (frame_1234 ! 5) 3"
  "isDC frame_1234" "\<not> isAC frame_1234" "frame_unit frame_1234 = ''V''" "isVolt frame_1234"
  "frame_sign frame_1234 = 1" "prefix_count frame_1234 = 0"
  by (simp_all add: frame_1234_def digit_defs flag_defs frame_unit_def frame_sign_def
      prefix_count_def str_celsius_def)

lemma decode_nano_micro:
  "decodeFrame frame_nano_micro = Some \<lparr> Value = Some (1 / 1000000000000000),
     ValueStr = ''0001'', Unit = str_micro @ ''V'', Mode = ''DC'', Auto = False, Hold = False,
     Rel = False, LowBatt = False, RawHex = raw_hex frame_nano_micro \<rparr>"
  by (simp add: frame_nano_micro_def dec_defs digit_defs flag_defs)

lemma facts_nano_micro:
  "length frame_nano_micro = 14" "frame_numeric frame_nano_micro"
  "isNano frame_nano_micro" "isMicro frame_nano_micro" "frame_base frame_nano_micro = 1"
  "spec_prefix_factor frame_nano_micro = 1 / 1000000000" "prefix_count frame_nano_micro = 2"
  by (simp_all add: frame_nano_micro_def digit_defs flag_defs frame_base_def frame_div_def
      frame_sign_def spec_prefix_factor_def prefix_count_def)

lemma decode_mega_volt:
  "decodeFrame frame_mega_volt = Some \<lparr> Value = Some 1234000000,
     ValueStr = ''1234'', Unit = ''mV'', Mode = ''DC'', Auto = False, Hold = False,
     Rel = False, LowBatt = False, RawHex = raw_hex frame_mega_volt \<rparr>"
  by (simp add: frame_mega_volt_def dec_defs digit_defs flag_defs)

lemma facts_mega_volt:
  "length frame_mega_volt = 14" "isMega frame_mega_volt" "prefix_count frame_mega_volt = 1"
  "frame_unit frame_mega_volt = ''V''" "spec_unit frame_mega_volt = ''MV''"
  "frame_prefix frame_mega_volt = ''M''"
  by (simp_all add: frame_mega_volt_def flag_defs prefix_count_def frame_unit_def spec_unit_def
      spec_prefix_letter_def frame_prefix_def str_celsius_def)

subsection \<open>Claims about the decoder\<close>

text \<open>
  C7. Some valid 14-byte frame that encodes the digits 1, 2, 3, 4, the decimal point at
  the tenths position (byte 7 bit 3), DC mode (byte 0 bit 2), the Volt unit (byte 12
  bit 2), a positive sign and no prefix flag decodes to value 123.4, value string
  "123.4", unit "V" and mode "DC". The frame is \<open>frame_1234\<close>.
\<close>

theorem C7_roundtrip_1234:
  "length frame_1234 = 14 \<and> tagged frame_1234 \<and> frame_digits frame_1234 = [1, 2, 3, 4] \<and>
   flag (frame_1234 ! 7) 3 \<and> isDC frame_1234 \<and> isVolt frame_1234 \<and>
   frame_sign frame_1234 = 1 \<and> prefix_count frame_1234 = 0 \<and>
   (\<exists>m. decodeFrame frame_1234 = Some m \<and> Value m = Some 123.4 \<and> ValueStr m = ''123.4'' \<and>
        Unit m = ''V'' \<and> Mode m = ''DC'')"
proof -
  have "length frame_1234 = 14" by (simp add: frame_1234_def)
  then show ?thesis
    by (simp add: tagged_1234 encoding_1234 decode_1234)
qed

text \<open>
  C6. For every 14-byte frame in which at least one of the four digit patterns (the
  two nibbles of a byte pair combined, top bit masked) is not in the 7-segment table,
  the decoder returns a Measurement whose value is absent and whose value string is
  "????". Its flags are the flag bits: auto is byte 0 bit 1, hold byte 11 bit 0, rel
  byte 11 bit 1, low battery byte 12 bit 0. Its mode is empty when byte 13 bit 2
  (Celsius) is set, else "AC" for byte 0 bit 3, else "DC" for byte 0 bit 2, else empty.
  Its unit is built from the base unit (the first set of byte 13 bit 2, byte 10 bit 2,
  byte 11 bit 3, byte 11 bit 2, byte 12 bit 3, byte 12 bit 2, byte 12 bit 1) and the
  prefix letter (the first set of byte 10 bit 1, byte 9 bit 1, byte 10 bit 3, byte 9
  bit 3, byte 9 bit 2) as for any frame. So unit, mode and the four flags are the ones
  that every 14-byte frame with the same flag bytes (bytes 0 and 9 to 13) gets, a
  numeric one included.
\<close>

theorem C6_non_numeric_frame:
  assumes "length b = 14" and "i < 4" and "digit_byte b i AND 0x7F \<notin> seg_table"
  shows "\<exists>m. decodeFrame b = Some m \<and> Value m = None \<and> ValueStr m = ''????'' \<and>
           Auto m = bit (b ! 0) 1 \<and> Hold m = bit (b ! 11) 0 \<and> Rel m = bit (b ! 11) 1 \<and>
           LowBatt m = bit (b ! 12) 0 \<and>
           Mode m =
             (if bit (b ! 13) 2 then ''''
              else if bit (b ! 0) 3 then ''AC''
              else if bit (b ! 0) 2 then ''DC''
              else '''') \<and>
           Unit m =
             (if frame_unit b = '''' \<or> frame_unit b = ''%'' \<or> frame_unit b = str_celsius
              then frame_unit b
              else if bit (b ! 10) 1 \<and> frame_unit b = ''V'' then ''mV''
              else frame_prefix b @ frame_unit b) \<and>
           frame_unit b =
             (if bit (b ! 13) 2 then str_celsius
              else if bit (b ! 10) 2 then ''%''
              else if bit (b ! 11) 3 then ''F''
              else if bit (b ! 11) 2 then ''Ohm''
              else if bit (b ! 12) 3 then ''A''
              else if bit (b ! 12) 2 then ''V''
              else if bit (b ! 12) 1 then ''Hz''
              else '''') \<and>
           frame_prefix b =
             (if bit (b ! 10) 1 then ''M''
              else if bit (b ! 9) 1 then ''k''
              else if bit (b ! 10) 3 then ''m''
              else if bit (b ! 9) 3 then str_micro
              else if bit (b ! 9) 2 then ''n''
              else '''') \<and>
           (\<forall>b'. length b' = 14 \<and> b' ! 0 = b ! 0 \<and> b' ! 9 = b ! 9 \<and> b' ! 10 = b ! 10 \<and>
                  b' ! 11 = b ! 11 \<and> b' ! 12 = b ! 12 \<and> b' ! 13 = b ! 13 \<longrightarrow>
              (\<exists>m'. decodeFrame b' = Some m' \<and> Unit m' = Unit m \<and> Mode m' = Mode m \<and>
                    Auto m' = Auto m \<and> Hold m' = Hold m \<and> Rel m' = Rel m \<and>
                    LowBatt m' = LowBatt m))"
proof -
  from assms(2,3) have nn: "\<not> frame_numeric b"
    unfolding not_numeric_iff by blast
  have 1: "decodeFrame b = Some \<lparr> Value = None, ValueStr = ''????'', Unit = frame_fullUnit b,
      Mode = frame_mode b, Auto = isAuto b, Hold = isHold b, Rel = isRel b,
      LowBatt = lowBatt b, RawHex = raw_hex b \<rparr>"
    using assms(1) nn by (simp add: decodeFrame_def frame_valPtr_def frame_valueStr_def)
  have 2: "\<exists>m'. decodeFrame b' = Some m' \<and> Unit m' = frame_fullUnit b \<and>
      Mode m' = frame_mode b \<and> Auto m' = isAuto b \<and> Hold m' = isHold b \<and> Rel m' = isRel b \<and>
      LowBatt m' = lowBatt b"
    if "length b' = 14" "b' ! 0 = b ! 0" "b' ! 9 = b ! 9" "b' ! 10 = b ! 10"
      "b' ! 11 = b ! 11" "b' ! 12 = b ! 12" "b' ! 13 = b ! 13" for b'
  proof -
    note e = flags_agree_fullUnit [of b' b] flags_agree_mode [of b' b] flags_agree_bits [of b' b]
    show ?thesis
      using that by (simp add: decodeFrame_def e)
  qed
  have 3: "isAuto b = bit (b ! 0) 1" "isHold b = bit (b ! 11) 0" "isRel b = bit (b ! 11) 1"
    "lowBatt b = bit (b ! 12) 0"
    by (simp_all only: isAuto_def isHold_def isRel_def lowBatt_def flag_bit)
  show ?thesis
    unfolding 1
    apply (intro exI [of _ "\<lparr> Value = None, ValueStr = ''????'', Unit = frame_fullUnit b,
      Mode = frame_mode b, Auto = isAuto b, Hold = isHold b, Rel = isRel b,
      LowBatt = lowBatt b, RawHex = raw_hex b \<rparr>"] conjI)
                apply simp
               apply simp
              apply simp
             apply (simp add: 3)
            apply (simp add: 3)
           apply (simp add: 3)
          apply (simp add: 3)
         apply (simp add: frame_mode_bits)
        apply (simp only: Measurement.simps fullUnit_bits)
       apply (rule frame_unit_bits)
      apply (rule frame_prefix_bits)
    using 2 apply simp
    done
qed

theorem C6_witness:
  "length frame_bad_flags = 14 \<and> (0::nat) < 4 \<and>
   digit_byte frame_bad_flags 0 AND 0x7F \<notin> seg_table \<and>
   (\<exists>m. decodeFrame frame_bad_flags = Some m \<and> Value m = None \<and> ValueStr m = ''????'' \<and>
      Unit m = ''kOhm'' \<and> Mode m = ''AC'' \<and> Auto m \<and> Hold m \<and> Rel m \<and> LowBatt m) \<and>
   length frame_bad_digit = 14 \<and>
   digit_byte frame_bad_digit 0 AND 0x7F \<notin> seg_table \<and>
   (\<exists>m. decodeFrame frame_bad_digit = Some m \<and> Value m = None \<and> ValueStr m = ''????'' \<and>
      Unit m = ''V'' \<and> Mode m = ''DC'' \<and> \<not> Auto m \<and> \<not> Hold m \<and> \<not> Rel m \<and> \<not> LowBatt m \<and>
      (\<exists>m'. decodeFrame frame_1234 = Some m' \<and> Value m' = Some 123.4 \<and> Unit m' = Unit m \<and>
         Mode m' = Mode m \<and> Auto m' = Auto m \<and> Hold m' = Hold m \<and> Rel m' = Rel m \<and>
         LowBatt m' = LowBatt m))"
proof -
  have h2: "(0::nat) < 4" by simp
  have g1: "length frame_bad_flags = 14" by (simp add: frame_bad_flags_def)
  have g3: "digit_byte frame_bad_flags 0 AND 0x7F \<notin> seg_table"
    by (simp add: frame_bad_flags_def digit_byte_def seg_table_def)
  have gb: "bit (frame_bad_flags ! 0) 1" "bit (frame_bad_flags ! 11) 0"
    "bit (frame_bad_flags ! 11) 1" "bit (frame_bad_flags ! 12) 0"
    "\<not> bit (frame_bad_flags ! 13) 2" "bit (frame_bad_flags ! 0) 3"
    "\<not> bit (frame_bad_flags ! 10) 2" "\<not> bit (frame_bad_flags ! 11) 3"
    "bit (frame_bad_flags ! 11) 2" "\<not> bit (frame_bad_flags ! 10) 1"
    "bit (frame_bad_flags ! 9) 1"
    by (simp_all add: frame_bad_flags_def flag_bit [symmetric] flag_def)
  from C6_non_numeric_frame [OF g1 h2 g3] obtain m where
    m: "decodeFrame frame_bad_flags = Some m" "Value m = None" "ValueStr m = ''????''"
      "Auto m = bit (frame_bad_flags ! 0) 1" "Hold m = bit (frame_bad_flags ! 11) 0"
      "Rel m = bit (frame_bad_flags ! 11) 1" "LowBatt m = bit (frame_bad_flags ! 12) 0"
      "Mode m =
         (if bit (frame_bad_flags ! 13) 2 then ''''
          else if bit (frame_bad_flags ! 0) 3 then ''AC''
          else if bit (frame_bad_flags ! 0) 2 then ''DC''
          else '''')"
      "Unit m =
         (if frame_unit frame_bad_flags = '''' \<or> frame_unit frame_bad_flags = ''%'' \<or>
             frame_unit frame_bad_flags = str_celsius
          then frame_unit frame_bad_flags
          else if bit (frame_bad_flags ! 10) 1 \<and> frame_unit frame_bad_flags = ''V'' then ''mV''
          else frame_prefix frame_bad_flags @ frame_unit frame_bad_flags)"
      "frame_unit frame_bad_flags =
         (if bit (frame_bad_flags ! 13) 2 then str_celsius
          else if bit (frame_bad_flags ! 10) 2 then ''%''
          else if bit (frame_bad_flags ! 11) 3 then ''F''
          else if bit (frame_bad_flags ! 11) 2 then ''Ohm''
          else if bit (frame_bad_flags ! 12) 3 then ''A''
          else if bit (frame_bad_flags ! 12) 2 then ''V''
          else if bit (frame_bad_flags ! 12) 1 then ''Hz''
          else '''')"
      "frame_prefix frame_bad_flags =
         (if bit (frame_bad_flags ! 10) 1 then ''M''
          else if bit (frame_bad_flags ! 9) 1 then ''k''
          else if bit (frame_bad_flags ! 10) 3 then ''m''
          else if bit (frame_bad_flags ! 9) 3 then str_micro
          else if bit (frame_bad_flags ! 9) 2 then ''n''
          else '''')"
    by blast
  from m(10) gb have u: "frame_unit frame_bad_flags = ''Ohm''" by simp
  from m(11) gb have p: "frame_prefix frame_bad_flags = ''k''" by simp
  from m(9) u p gb have unit: "Unit m = ''kOhm''" by (simp add: str_celsius_def)
  from m(8) gb have mode: "Mode m = ''AC''" by simp
  from m(4-7) gb have fl: "Auto m" "Hold m" "Rel m" "LowBatt m" by simp_all
  have first: "\<exists>m. decodeFrame frame_bad_flags = Some m \<and> Value m = None \<and>
      ValueStr m = ''????'' \<and> Unit m = ''kOhm'' \<and> Mode m = ''AC'' \<and> Auto m \<and> Hold m \<and> Rel m \<and>
      LowBatt m"
    using m(1-3) unit mode fl by blast
  have h1: "length frame_bad_digit = 14" by (simp add: frame_bad_digit_def)
  have h3: "digit_byte frame_bad_digit 0 AND 0x7F \<notin> seg_table"
    by (simp add: frame_bad_digit_def digit_byte_def seg_table_def)
  have hb: "\<not> bit (frame_bad_digit ! 0) 1" "\<not> bit (frame_bad_digit ! 11) 0"
    "\<not> bit (frame_bad_digit ! 11) 1" "\<not> bit (frame_bad_digit ! 12) 0"
    "\<not> bit (frame_bad_digit ! 13) 2" "\<not> bit (frame_bad_digit ! 0) 3"
    "bit (frame_bad_digit ! 0) 2"
    by (simp_all add: frame_bad_digit_def flag_bit [symmetric] flag_def)
  have hu: "frame_unit frame_bad_digit = ''V''" "frame_prefix frame_bad_digit = ''''"
    "\<not> bit (frame_bad_digit ! 10) 1"
    by (simp_all add: frame_bad_digit_def frame_unit_def frame_prefix_def flag_defs
        flag_bit [symmetric])
  have same: "length frame_1234 = 14 \<and> frame_1234 ! 0 = frame_bad_digit ! 0 \<and>
      frame_1234 ! 9 = frame_bad_digit ! 9 \<and> frame_1234 ! 10 = frame_bad_digit ! 10 \<and>
      frame_1234 ! 11 = frame_bad_digit ! 11 \<and> frame_1234 ! 12 = frame_bad_digit ! 12 \<and>
      frame_1234 ! 13 = frame_bad_digit ! 13"
    by (simp add: frame_1234_def frame_bad_digit_def)
  from C6_non_numeric_frame [OF h1 h2 h3] obtain n where
    n: "decodeFrame frame_bad_digit = Some n" "Value n = None" "ValueStr n = ''????''"
      "Auto n = bit (frame_bad_digit ! 0) 1" "Hold n = bit (frame_bad_digit ! 11) 0"
      "Rel n = bit (frame_bad_digit ! 11) 1" "LowBatt n = bit (frame_bad_digit ! 12) 0"
      "Mode n =
         (if bit (frame_bad_digit ! 13) 2 then ''''
          else if bit (frame_bad_digit ! 0) 3 then ''AC''
          else if bit (frame_bad_digit ! 0) 2 then ''DC''
          else '''')"
      "Unit n =
         (if frame_unit frame_bad_digit = '''' \<or> frame_unit frame_bad_digit = ''%'' \<or>
             frame_unit frame_bad_digit = str_celsius
          then frame_unit frame_bad_digit
          else if bit (frame_bad_digit ! 10) 1 \<and> frame_unit frame_bad_digit = ''V'' then ''mV''
          else frame_prefix frame_bad_digit @ frame_unit frame_bad_digit)"
    and all: "\<forall>b'. length b' = 14 \<and> b' ! 0 = frame_bad_digit ! 0 \<and>
        b' ! 9 = frame_bad_digit ! 9 \<and> b' ! 10 = frame_bad_digit ! 10 \<and>
        b' ! 11 = frame_bad_digit ! 11 \<and> b' ! 12 = frame_bad_digit ! 12 \<and>
        b' ! 13 = frame_bad_digit ! 13 \<longrightarrow>
        (\<exists>m'. decodeFrame b' = Some m' \<and> Unit m' = Unit n \<and> Mode m' = Mode n \<and>
              Auto m' = Auto n \<and> Hold m' = Hold n \<and> Rel m' = Rel n \<and> LowBatt m' = LowBatt n)"
    by blast
  from n(9) hu have unit2: "Unit n = ''V''" by (simp add: str_celsius_def)
  from n(8) hb have mode2: "Mode n = ''DC''" by simp
  from n(4-7) hb have fl2: "\<not> Auto n" "\<not> Hold n" "\<not> Rel n" "\<not> LowBatt n" by simp_all
  from all same obtain m' where
    m': "decodeFrame frame_1234 = Some m'" "Unit m' = Unit n" "Mode m' = Mode n"
      "Auto m' = Auto n" "Hold m' = Hold n" "Rel m' = Rel n" "LowBatt m' = LowBatt n"
    by blast
  from m'(1) have v: "Value m' = Some 123.4" by (auto simp add: decode_1234)
  have second: "\<exists>m. decodeFrame frame_bad_digit = Some m \<and> Value m = None \<and>
      ValueStr m = ''????'' \<and> Unit m = ''V'' \<and> Mode m = ''DC'' \<and> \<not> Auto m \<and> \<not> Hold m \<and>
      \<not> Rel m \<and> \<not> LowBatt m \<and>
      (\<exists>m'. decodeFrame frame_1234 = Some m' \<and> Value m' = Some 123.4 \<and> Unit m' = Unit m \<and>
         Mode m' = Mode m \<and> Auto m' = Auto m \<and> Hold m' = Hold m \<and> Rel m' = Rel m \<and>
         LowBatt m' = LowBatt m)"
    using n(1-3) unit2 mode2 fl2 m' v by blast
  from g1 h2 g3 first h1 h3 second show ?thesis by blast
qed

text \<open>
  C2, as the code has it. For every numeric 14-byte frame the decoder applies the factor
  of every prefix flag that is set (nano, byte 9 bit 2, divides by 1e9; micro, byte 9
  bit 3, by 1e6; milli, byte 10 bit 3, by 1e3; kilo, byte 9 bit 1, multiplies by 1e3;
  mega, byte 10 bit 1, by 1e6), so that with several flags set the factors multiply;
  when at most one flag is set the value is scaled by exactly the one factor the
  priority rule nano, micro, milli, kilo, mega selects.
\<close>

theorem C2_prefix_factors_multiply:
  assumes "length b = 14" and "frame_numeric b"
  shows "\<exists>m. decodeFrame b = Some m \<and>
           Value m = Some (frame_base b *
             (if isNano b then 1 / 1000000000 else 1) * (if isMicro b then 1 / 1000000 else 1) *
             (if isMilli b then 1 / 1000 else 1) * (if isKilo b then 1000 else 1) *
             (if isMega b then 1000000 else 1)) \<and>
           (prefix_count b \<le> 1 \<longrightarrow> Value m = Some (frame_base b * spec_prefix_factor b))"
  unfolding decode_numeric [OF assms]
  using scale_prefix_product [of b "frame_base b"] scale_prefix_single [of b "frame_base b"]
  by simp

text \<open>
  The claim as the specification states it (one factor only, chosen by priority) fails
  on a frame with the nano and the micro flag: the code divides by 1e9 and by 1e6.
\<close>

theorem C2_counterexample:
  "length frame_nano_micro = 14 \<and> frame_numeric frame_nano_micro \<and>
   isNano frame_nano_micro \<and> isMicro frame_nano_micro \<and>
   (\<exists>m. decodeFrame frame_nano_micro = Some m \<and>
        Value m = Some (1 / 1000000000000000) \<and>
        frame_base frame_nano_micro * spec_prefix_factor frame_nano_micro = 1 / 1000000000 \<and>
        Value m \<noteq> Some (frame_base frame_nano_micro * spec_prefix_factor frame_nano_micro))"
  by (simp add: decode_nano_micro facts_nano_micro)

theorem C2_witness:
  "length frame_mega_volt = 14 \<and> frame_numeric frame_mega_volt \<and>
   prefix_count frame_mega_volt \<le> 1 \<and> isMega frame_mega_volt \<and>
   frame_base frame_mega_volt = 1234 \<and>
   (\<exists>m. decodeFrame frame_mega_volt = Some m \<and> Value m = Some 1234000000) \<and>
   length frame_nano_micro = 14 \<and> frame_numeric frame_nano_micro \<and>
   isNano frame_nano_micro \<and> isMicro frame_nano_micro \<and> frame_base frame_nano_micro = 1 \<and>
   (\<exists>m. decodeFrame frame_nano_micro = Some m \<and> Value m = Some (1 / 1000000000000000))"
proof -
  have h1: "length frame_mega_volt = 14" by (rule facts_mega_volt(1))
  have h2: "frame_numeric frame_mega_volt" by (simp add: frame_mega_volt_def digit_defs)
  have h3: "prefix_count frame_mega_volt \<le> 1" by (simp add: facts_mega_volt)
  have b1: "frame_base frame_mega_volt = 1234"
    by (simp add: frame_mega_volt_def digit_defs flag_defs frame_base_def frame_div_def
        frame_sign_def)
  have f1: "spec_prefix_factor frame_mega_volt = 1000000"
    by (simp add: frame_mega_volt_def flag_defs spec_prefix_factor_def)
  from C2_prefix_factors_multiply [OF h1 h2] h3 obtain m where
    "decodeFrame frame_mega_volt = Some m"
    "Value m = Some (frame_base frame_mega_volt * spec_prefix_factor frame_mega_volt)"
    by blast
  then have mega: "\<exists>m. decodeFrame frame_mega_volt = Some m \<and> Value m = Some 1234000000"
    by (simp add: b1 f1)
  note k = facts_nano_micro
  have nm: "\<not> isMilli frame_nano_micro" "\<not> isKilo frame_nano_micro" "\<not> isMega frame_nano_micro"
    by (simp_all add: frame_nano_micro_def flag_defs)
  from C2_prefix_factors_multiply [OF k(1) k(2)] obtain n where
    "decodeFrame frame_nano_micro = Some n"
    "Value n = Some (frame_base frame_nano_micro *
       (if isNano frame_nano_micro then 1 / 1000000000 else 1) *
       (if isMicro frame_nano_micro then 1 / 1000000 else 1) *
       (if isMilli frame_nano_micro then 1 / 1000 else 1) *
       (if isKilo frame_nano_micro then 1000 else 1) *
       (if isMega frame_nano_micro then 1000000 else 1))"
    by blast
  then have both: "\<exists>m. decodeFrame frame_nano_micro = Some m \<and>
      Value m = Some (1 / 1000000000000000)"
    by (simp add: k nm)
  from h1 h2 h3 facts_mega_volt(2) b1 mega k(1-5) both show ?thesis by blast
qed

text \<open>
  C8, as the code has it. For every 14-byte frame the unit string of the Measurement is
  the base unit preceded by the prefix letter of the first flag set among mega, kilo,
  milli, micro, nano (no letter when none is set), except that the empty unit, percent
  and Celsius carry no prefix letter, and that mega with the Volt unit is written "mV".
\<close>

theorem C8_unit_string:
  assumes "length b = 14"
  shows "\<exists>m. decodeFrame b = Some m \<and>
           Unit m =
             (if frame_unit b = '''' \<or> frame_unit b = ''%'' \<or> frame_unit b = str_celsius
              then frame_unit b
              else if isMega b \<and> frame_unit b = ''V'' then ''mV''
              else frame_prefix b @ frame_unit b)"
  using assms fullUnit_cases [of b] by (simp add: decodeFrame_def)

text \<open>
  The claim as the specification states it fails on a frame with the mega flag alone and
  the Volt unit: the unit string is "mV", not "MV".
\<close>

theorem C8_counterexample:
  "length frame_mega_volt = 14 \<and> isMega frame_mega_volt \<and> prefix_count frame_mega_volt = 1 \<and>
   frame_unit frame_mega_volt = ''V'' \<and>
   (\<exists>m. decodeFrame frame_mega_volt = Some m \<and> Unit m = ''mV'' \<and>
        spec_unit frame_mega_volt = ''MV'' \<and> Unit m \<noteq> spec_unit frame_mega_volt)"
  by (simp add: decode_mega_volt facts_mega_volt)

theorem C8_witness:
  "length frame_nano_micro = 14 \<and>
   (\<exists>m. decodeFrame frame_nano_micro = Some m \<and> Unit m = str_micro @ ''V'')"
proof -
  have h1: "length frame_nano_micro = 14" by (simp add: frame_nano_micro_def)
  have u: "frame_unit frame_nano_micro = ''V''" "frame_prefix frame_nano_micro = str_micro"
    "\<not> isMega frame_nano_micro"
    by (simp_all add: frame_nano_micro_def frame_unit_def frame_prefix_def flag_defs)
  from C8_unit_string [OF h1] show ?thesis
    using h1 u by (simp add: str_celsius_def)
qed

section \<open>Properties of the synchroniser\<close>

lemma want_eq: "want i = word_of_nat (16 * (i + 1))"
  by (simp add: want_def push_bit_eq_mult)

lemma unat_want:
  assumes "i < 14"
  shows "unat (want i) = 16 * (i + 1)"
proof -
  have "unat (word_of_nat (16 * (i + 1)) :: byte) = (16 * (i + 1)) mod 2 ^ LENGTH(8)"
    by (rule unat_of_nat)
  also have "\<dots> = 16 * (i + 1)"
    using assms by simp
  finally show ?thesis
    by (simp only: want_eq)
qed

lemma want_inj: "i < 14 \<Longrightarrow> j < 14 \<Longrightarrow> (want i = want j) = (i = j)"
proof
  assume "i < 14" "j < 14" "want i = want j"
  then have "unat (want i) = unat (want j)" by simp
  with \<open>i < 14\<close> \<open>j < 14\<close> show "i = j" by (simp add: unat_want)
qed simp

lemma want_0: "want 0 = 0x10"
  by (simp add: want_eq)

lemma tagged_iff: "tagged f = (length f = 14 \<and> (\<forall>i<14. (f ! i) AND 0xF0 = want i))"
  by (auto simp add: tagged_def list_all_iff)

lemma sync_wf_init: "sync_wf sync_init"
  by (simp add: sync_wf_def sync_init_def)

lemma sync_byte_wf:
  assumes "sync_wf s"
  shows "\<exists>s' out. sync_byte s b = Some (s', out) \<and> sync_wf s'"
  using assms by (auto simp add: sync_byte_def store_def sync_wf_def)

lemma feed_wf:
  assumes "sync_wf s"
  shows "\<exists>s' fs. feed s bs = Some (s', fs) \<and> sync_wf s'"
  using assms
proof (induction bs arbitrary: s)
  case Nil
  then show ?case by simp
next
  case (Cons b bs)
  from sync_byte_wf [OF Cons.prems] obtain s1 out where
    1: "sync_byte s b = Some (s1, out)" "sync_wf s1" by blast
  from Cons.IH [OF 1(2)] obtain s2 fs where 2: "feed s1 bs = Some (s2, fs)" "sync_wf s2" by blast
  from 1 2 show ?case by simp
qed

lemma feed_append:
  "feed s (xs @ ys) =
     (case feed s xs of
        None \<Rightarrow> None
      | Some (s', fs) \<Rightarrow>
          (case feed s' ys of None \<Rightarrow> None | Some (s'', gs) \<Rightarrow> Some (s'', fs @ gs)))"
  by (induction xs arbitrary: s) (auto split: option.splits)

lemma feed_chunks_concat: "feed_chunks s cs = feed s (concat cs)"
  by (induction cs arbitrary: s) (auto simp add: feed_append split: option.splits)


lemma take_Suc_update:
  assumes "k < length xs"
  shows "take (Suc k) (xs[k := b]) = take k xs @ [b]"
  using assms by (simp add: take_Suc_conv_app_nth)

lemma sync_inv_init: "sync_inv [] sync_init"
  by (simp add: sync_inv_def sync_wf_init) (simp add: sync_init_def)

lemma sync_inv_step:
  assumes "sync_inv pre s" and "sync_byte s b = Some (s', out)"
  shows "sync_inv (pre @ [b]) s'"
    and "out = Some f \<Longrightarrow> tagged f \<and> (\<exists>q. pre @ [b] = q @ f)"
proof -
  from assms(1) obtain q where
    w: "length (frame s) = 14" "idx s < 14" and
    q: "pre = q @ take (idx s) (frame s)" and
    t: "\<forall>i<idx s. (frame s ! i) AND 0xF0 = want i"
    by (auto simp add: sync_inv_def sync_wf_def)
  let ?k = "idx s"
  let ?fr = "(frame s)[?k := b]"
  show "sync_inv (pre @ [b]) s'"
  proof (cases "b AND 0xF0 = want ?k")
    case True
    have tk: "take (Suc ?k) ?fr = take ?k (frame s) @ [b]"
      using w by (simp add: take_Suc_update)
    have tags: "\<forall>i<Suc ?k. (?fr ! i) AND 0xF0 = want i"
      using t True w by (auto simp add: nth_list_update less_Suc_eq)
    show ?thesis
    proof (cases "?k + 1 = 14")
      case True
      with \<open>b AND 0xF0 = want ?k\<close> assms(2) w have "s' = \<lparr> frame = ?fr, idx = 0 \<rparr>"
        by (simp add: sync_byte_def store_def)
      then show ?thesis by (simp add: sync_inv_def sync_wf_def w)
    next
      case False
      with \<open>b AND 0xF0 = want ?k\<close> assms(2) w
      have s': "s' = \<lparr> frame = ?fr, idx = ?k + 1 \<rparr>"
        by (simp add: sync_byte_def store_def)
      have "pre @ [b] = q @ take (Suc ?k) ?fr"
        using q tk by simp
      with tags False w show ?thesis
        unfolding s' sync_inv_def sync_wf_def by auto
    qed
  next
    case False
    show ?thesis
    proof (cases "b AND 0xF0 = 0x10")
      case True
      with False assms(2) w have s': "s' = \<lparr> frame = (frame s)[0 := b], idx = 1 \<rparr>"
        by (simp add: sync_byte_def store_def)
      have "take 1 ((frame s)[0 := b]) = [b]"
        using w take_Suc_update [of 0 "frame s" b] by simp
      then have "pre @ [b] = pre @ take 1 ((frame s)[0 := b])" by simp
      moreover have "((frame s)[0 := b] ! 0) AND 0xF0 = want 0"
        using True w by (simp add: want_0)
      ultimately show ?thesis
        unfolding s' sync_inv_def sync_wf_def using w by auto
    next
      case nt: False
      with False assms(2) have "s' = s\<lparr> idx := 0 \<rparr>"
        by (simp add: sync_byte_def)
      then show ?thesis by (simp add: sync_inv_def sync_wf_def w)
    qed
  qed
  show "tagged f \<and> (\<exists>q. pre @ [b] = q @ f)" if "out = Some f"
  proof -
    from that assms(2) w have m: "b AND 0xF0 = want ?k" and k: "?k + 1 = 14" and f: "f = ?fr"
      by (auto simp add: sync_byte_def store_def split: if_splits)
    have tk: "take (Suc ?k) ?fr = take ?k (frame s) @ [b]"
      using w by (simp add: take_Suc_update)
    have "take (Suc ?k) ?fr = ?fr"
      using k w by simp
    with tk q have "pre @ [b] = q @ ?fr" by simp
    moreover have "\<forall>i<14. (?fr ! i) AND 0xF0 = want i"
      using t m w k by (auto simp add: nth_list_update less_Suc_eq)
    ultimately show ?thesis
      unfolding f tagged_iff using w by auto
  qed
qed

lemma sync_inv_feed:
  assumes "sync_inv pre s" and "feed s bs = Some (s', fs)"
  shows "sync_inv (pre @ bs) s'"
    and "\<forall>f\<in>set fs. tagged f \<and> (\<exists>p q. pre @ bs = p @ f @ q)"
  using assms
proof (induction bs arbitrary: pre s fs)
  case Nil
  { case 1 then show ?case by simp }
  { case 2 then show ?case by simp }
next
  case (Cons b bs)
  { case 1
    from 1(2) obtain s1 out fs1 where
      a: "sync_byte s b = Some (s1, out)" and b: "feed s1 bs = Some (s', fs1)"
      by (auto split: option.splits)
    from sync_inv_step(1) [OF 1(1) a] have "sync_inv (pre @ [b]) s1" .
    from Cons.IH(1) [OF this b] show ?case by simp }
  { case 2
    from 2(2) obtain s1 out fs1 where
      a: "sync_byte s b = Some (s1, out)" and b: "feed s1 bs = Some (s', fs1)"
      and fs: "fs = (case out of None \<Rightarrow> [] | Some f \<Rightarrow> [f]) @ fs1"
      by (auto split: option.splits)
    from sync_inv_step(1) [OF 2(1) a] have i1: "sync_inv (pre @ [b]) s1" .
    from Cons.IH(2) [OF i1 b]
    have rest: "\<forall>f\<in>set fs1. tagged f \<and> (\<exists>p q. pre @ b # bs = p @ f @ q)" by simp
    have first: "tagged f \<and> (\<exists>p q. pre @ b # bs = p @ f @ q)" if "out = Some f" for f
    proof -
      from sync_inv_step(2) [OF 2(1) a that] obtain p where "tagged f" "pre @ [b] = p @ f" by blast
      then have "pre @ b # bs = p @ f @ bs" by (metis append.assoc append_Cons append_Nil)
      with \<open>tagged f\<close> show ?thesis by blast
    qed
    show ?case
      unfolding fs using rest first by (auto split: option.splits) }
qed

lemma feed_init_total: "\<exists>s fs. feed sync_init bs = Some (s, fs) \<and> sync_wf s"
  by (rule feed_wf [OF sync_wf_init])

lemma feed_init_inv:
  assumes "feed sync_init bs = Some (s, fs)"
  shows "sync_inv bs s"
  using sync_inv_feed(1) [OF sync_inv_init assms] by simp

lemma feed_init_frames:
  assumes "feed sync_init bs = Some (s, fs)" and "f \<in> set fs"
  shows "tagged f \<and> (\<exists>p q. bs = p @ f @ q)"
  using sync_inv_feed(2) [OF sync_inv_init assms(1)] assms(2) by simp

lemma mismatch_step:
  assumes "sync_wf s" and "b AND 0xF0 \<noteq> want (idx s)"
  shows "\<exists>s'. sync_byte s b = Some (s', None) \<and> idx s' = (if b AND 0xF0 = 0x10 then 1 else 0)"
  using assms by (simp add: sync_byte_def store_def sync_wf_def)

text \<open>From any state with buffer prefix equal to the frame's, the rest of the frame completes it.\<close>

lemma feed_rest:
  assumes "tagged f" and "length (frame s) = 14" and "idx s = j" and "j < 14"
    and "take j (frame s) = take j f"
  shows "feed s (drop j f) = Some (\<lparr> frame = f, idx = 0 \<rparr>, [f])"
  using assms(2-)
proof (induction "14 - j" arbitrary: s j)
  case 0
  then show ?case by simp
next
  case (Suc n)
  from assms(1) have lf: "length f = 14" and tg: "(f ! j) AND 0xF0 = want j"
    using Suc.prems(3) by (simp_all add: tagged_iff)
  let ?fr = "(frame s)[j := f ! j]"
  have d: "drop j f = f ! j # drop (Suc j) f"
    using lf Suc.prems(3) by (simp add: Cons_nth_drop_Suc)
  have tk: "take (Suc j) ?fr = take (Suc j) f"
    using Suc.prems lf by (simp add: take_Suc_update take_Suc_conv_app_nth)
  show ?case
  proof (cases "j + 1 = 14")
    case True
    then have "take (Suc j) ?fr = ?fr" "take (Suc j) f = f"
      using lf Suc.prems(1) by simp_all
    with tk have eq: "?fr = f" by simp
    have "sync_byte s (f ! j) = Some (\<lparr> frame = f, idx = 0 \<rparr>, Some f)"
      using tg Suc.prems True eq by (simp add: sync_byte_def store_def)
    moreover have "drop (Suc j) f = []"
      using True lf by simp
    ultimately show ?thesis
      unfolding d by simp
  next
    case False
    let ?s1 = "\<lparr> frame = ?fr, idx = j + 1 \<rparr>"
    have st: "sync_byte s (f ! j) = Some (?s1, None)"
      using tg Suc.prems False by (simp add: sync_byte_def store_def)
    have "feed ?s1 (drop (j + 1) f) = Some (\<lparr> frame = f, idx = 0 \<rparr>, [f])"
    proof (rule Suc.hyps(1))
      show "n = 14 - (j + 1)" using Suc.hyps(2) by simp
      show "length (frame ?s1) = 14" using Suc.prems(1) by simp
      show "idx ?s1 = j + 1" by simp
      show "j + 1 < 14" using False Suc.prems(3) by simp
      show "take (j + 1) (frame ?s1) = take (j + 1) f" using tk by simp
    qed
    with st show ?thesis
      unfolding d by simp
  qed
qed

lemma feed_frame:
  assumes "sync_wf s" and "tagged f"
  shows "feed s f = Some (\<lparr> frame = f, idx = 0 \<rparr>, [f])"
proof (cases "idx s = 0")
  case True
  from feed_rest [OF assms(2), of s 0] assms(1) True show ?thesis
    by (simp add: sync_wf_def)
next
  case False
  from assms have w: "length (frame s) = 14" "idx s < 14" and lf: "length f = 14"
    and t0: "(f ! 0) AND 0xF0 = want 0"
    by (simp_all add: sync_wf_def tagged_iff)
  from False w(2) have ne: "want 0 \<noteq> want (idx s)"
    by (simp add: want_inj)
  let ?s1 = "\<lparr> frame = (frame s)[0 := f ! 0], idx = 1 \<rparr>"
  have st: "sync_byte s (f ! 0) = Some (?s1, None)"
    using t0 ne w by (simp add: sync_byte_def store_def want_0)
  have d: "f = f ! 0 # drop 1 f"
    using lf Cons_nth_drop_Suc [of 0 f] by simp
  have "take 1 (frame ?s1) = take 1 f"
    using w lf take_Suc_update [of 0 "frame s" "f ! 0"] take_Suc_conv_app_nth [of 0 f] by simp
  with feed_rest [OF assms(2), of ?s1 1] w
  have "feed ?s1 (drop 1 f) = Some (\<lparr> frame = f, idx = 0 \<rparr>, [f])" by simp
  with st have "feed s (f ! 0 # drop 1 f) = Some (\<lparr> frame = f, idx = 0 \<rparr>, [f])" by simp
  with d show ?thesis by simp
qed

lemma feed_resume:
  assumes "feed sync_init pre = Some (s, fs)" and "tagged f"
  shows "feed sync_init (pre @ f) = Some (\<lparr> frame = f, idx = 0 \<rparr>, fs @ [f])"
proof -
  from feed_init_total [of pre] assms(1) have "sync_wf s" by simp
  from feed_frame [OF this assms(2)] assms(1) show ?thesis
    by (simp add: feed_append)
qed

lemma feed_take3:
  "feed sync_init (take 3 frame_1234) =
     Some (\<lparr> frame = [0x14, 0x20, 0x35, 0, 0, 0, 0, 0, 0, 0, 0, 0, 0, 0], idx = 3 \<rparr>, [])"
  by code_simp

lemma feed_take13:
  "feed sync_init (take 13 frame_1234) =
     Some (\<lparr> frame = [0x14, 0x20, 0x35, 0x45, 0x5B, 0x61, 0x7F, 0x8A, 0x97, 0xA0, 0xB0, 0xC0,
                       0xD4, 0], idx = 13 \<rparr>, [])"
  by code_simp

lemma step_last:
  "sync_byte \<lparr> frame = [0x14, 0x20, 0x35, 0x45, 0x5B, 0x61, 0x7F, 0x8A, 0x97, 0xA0, 0xB0, 0xC0,
                        0xD4, 0], idx = 13 \<rparr> 0xE0 =
     Some (\<lparr> frame = frame_1234, idx = 0 \<rparr>, Some frame_1234)"
  by code_simp

text \<open>
  C1. For every byte stream fed to the synchroniser, in chunks of any size, the result
  is the one of the whole stream fed at once and no store is out of range. A frame is
  handed to the decoder only when the last 14 bytes consumed carry the tags 0x10, 0x20,
  ..., 0xE0 in this order, and the frame is these 14 bytes. A byte whose tag is not the
  expected one completes no frame and drops the frame in progress: the cursor goes back
  to 0, or to 1 when the byte has the tag 0x10 and starts a new frame. Whatever came
  before, a well-tagged frame that follows in the stream is handed to the decoder when
  its last byte arrives, so a mismatch costs no frame but the one in progress.
\<close>

theorem C1_frame_synchroniser:
  "feed_chunks sync_init chunks = feed sync_init (concat chunks) \<and>
   (\<exists>s fs. feed sync_init bs = Some (s, fs)) \<and>
   (\<forall>s fs. feed sync_init bs = Some (s, fs) \<longrightarrow>
      (\<forall>f\<in>set fs. tagged f \<and> (\<exists>p q. bs = p @ f @ q)) \<and>
      (\<forall>b s' f. sync_byte s b = Some (s', Some f) \<longrightarrow> tagged f \<and> (\<exists>q. bs @ [b] = q @ f)) \<and>
      (\<forall>b. b AND 0xF0 \<noteq> want (idx s) \<longrightarrow>
         (\<exists>s'. sync_byte s b = Some (s', None) \<and>
               idx s' = (if b AND 0xF0 = 0x10 then 1 else 0))) \<and>
      (\<forall>f. tagged f \<longrightarrow>
         feed sync_init (bs @ f) = Some (\<lparr> frame = f, idx = 0 \<rparr>, fs @ [f])))"
proof -
  have chunks: "feed_chunks sync_init chunks = feed sync_init (concat chunks)"
    by (rule feed_chunks_concat)
  have total: "\<exists>s fs. feed sync_init bs = Some (s, fs)"
    using feed_init_total [of bs] by blast
  have runs: "(\<forall>f\<in>set fs. tagged f \<and> (\<exists>p q. bs = p @ f @ q)) \<and>
      (\<forall>b s' f. sync_byte s b = Some (s', Some f) \<longrightarrow>
         tagged f \<and> (\<exists>q. bs @ [b] = q @ f)) \<and>
      (\<forall>b. b AND 0xF0 \<noteq> want (idx s) \<longrightarrow>
         (\<exists>s'. sync_byte s b = Some (s', None) \<and>
               idx s' = (if b AND 0xF0 = 0x10 then 1 else 0))) \<and>
      (\<forall>f. tagged f \<longrightarrow>
         feed sync_init (bs @ f) = Some (\<lparr> frame = f, idx = 0 \<rparr>, fs @ [f]))"
    if run: "feed sync_init bs = Some (s, fs)" for s fs
  proof -
    have i: "sync_inv bs s" by (rule feed_init_inv [OF run])
    from feed_init_total [of bs] run have w: "sync_wf s" by simp
    have f1: "\<forall>f\<in>set fs. tagged f \<and> (\<exists>p q. bs = p @ f @ q)"
      using feed_init_frames [OF run] by blast
    have f2: "\<forall>b s' f. sync_byte s b = Some (s', Some f) \<longrightarrow>
        tagged f \<and> (\<exists>q. bs @ [b] = q @ f)"
      using sync_inv_step(2) [OF i] by blast
    have f3: "\<forall>b. b AND 0xF0 \<noteq> want (idx s) \<longrightarrow>
        (\<exists>s'. sync_byte s b = Some (s', None) \<and>
              idx s' = (if b AND 0xF0 = 0x10 then 1 else 0))"
      using mismatch_step [OF w] by blast
    have f4: "\<forall>f. tagged f \<longrightarrow>
        feed sync_init (bs @ f) = Some (\<lparr> frame = f, idx = 0 \<rparr>, fs @ [f])"
      using feed_resume [OF run] by blast
    show ?thesis by (intro conjI f1 f2 f3 f4)
  qed
  show ?thesis
    using chunks total runs by blast
qed

theorem C1_witness:
  "feed sync_init (take 3 frame_1234) =
     Some (\<lparr> frame = [0x14, 0x20, 0x35, 0, 0, 0, 0, 0, 0, 0, 0, 0, 0, 0], idx = 3 \<rparr>, []) \<and>
   (0x14 :: byte) AND 0xF0 \<noteq> want 3 \<and>
   (\<exists>s'. sync_byte \<lparr> frame = [0x14, 0x20, 0x35, 0, 0, 0, 0, 0, 0, 0, 0, 0, 0, 0], idx = 3 \<rparr> 0x14
           = Some (s', None) \<and> idx s' = 1) \<and>
   tagged frame_1234 \<and>
   feed sync_init (take 3 frame_1234 @ frame_1234) =
     Some (\<lparr> frame = frame_1234, idx = 0 \<rparr>, [frame_1234]) \<and>
   feed_chunks sync_init [take 3 frame_1234, [], take 5 frame_1234, drop 5 frame_1234] =
     Some (\<lparr> frame = frame_1234, idx = 0 \<rparr>, [frame_1234]) \<and>
   frame_1234 \<in> set [frame_1234] \<and>
   (\<exists>p q. take 3 frame_1234 @ frame_1234 = p @ frame_1234 @ q) \<and>
   sync_byte \<lparr> frame = [0x14, 0x20, 0x35, 0x45, 0x5B, 0x61, 0x7F, 0x8A, 0x97, 0xA0, 0xB0, 0xC0,
                        0xD4, 0], idx = 13 \<rparr> 0xE0 =
     Some (\<lparr> frame = frame_1234, idx = 0 \<rparr>, Some frame_1234) \<and>
   (\<exists>q. take 13 frame_1234 @ [0xE0] = q @ frame_1234)"
proof -
  let ?s = "\<lparr> frame = [0x14, 0x20, 0x35, 0, 0, 0, 0, 0, 0, 0, 0, 0, 0, 0 :: byte], idx = 3 \<rparr>"
  let ?bs = "take 3 frame_1234 @ frame_1234"
  note at3 = C1_frame_synchroniser [of "[]" "take 3 frame_1234"]
  have ne: "(0x14 :: byte) AND 0xF0 \<noteq> want 3"
    by (simp add: want_def push_bit_eq_mult)
  from at3 feed_take3 have
    a: "\<forall>b. b AND 0xF0 \<noteq> want (idx ?s) \<longrightarrow>
         (\<exists>s'. sync_byte ?s b = Some (s', None) \<and> idx s' = (if b AND 0xF0 = 0x10 then 1 else 0))"
    and b: "\<forall>f. tagged f \<longrightarrow>
         feed sync_init (take 3 frame_1234 @ f) = Some (\<lparr> frame = f, idx = 0 \<rparr>, [] @ [f])"
    by blast+
  from spec [OF a, of "0x14"] ne
  have mismatch: "\<exists>s'. sync_byte ?s 0x14 = Some (s', None) \<and> idx s' = 1"
    by simp
  from b tagged_1234
  have run: "feed sync_init ?bs = Some (\<lparr> frame = frame_1234, idx = 0 \<rparr>, [frame_1234])"
    by simp
  note whole = C1_frame_synchroniser
    [of "[take 3 frame_1234, [], take 5 frame_1234, drop 5 frame_1234]" ?bs]
  from whole run
  have chunks: "feed_chunks sync_init [take 3 frame_1234, [], take 5 frame_1234, drop 5 frame_1234]
      = Some (\<lparr> frame = frame_1234, idx = 0 \<rparr>, [frame_1234])"
    by simp
  from whole run have "\<forall>f\<in>set [frame_1234]. tagged f \<and> (\<exists>p q. ?bs = p @ f @ q)"
    by blast
  then have inside: "\<exists>p q. ?bs = p @ frame_1234 @ q" by simp
  note at13 = C1_frame_synchroniser [of "[]" "take 13 frame_1234"]
  from at13 feed_take13 step_last
  have last14: "\<exists>q. take 13 frame_1234 @ [0xE0] = q @ frame_1234"
    by blast
  from feed_take3 ne mismatch tagged_1234 run chunks inside step_last last14
  show ?thesis by simp
qed

lemma decodeFrame_None_iff: "(decodeFrame b = None) = (length b \<noteq> 14)"
  by (simp add: decodeFrame_def)

text \<open>
  C10. decodeFrame returns nil exactly for the inputs whose length is not 14, so it
  returns a Measurement for every input of 14 bytes. Every frame the synchroniser hands
  over is 14 bytes long: the decoder returns a Measurement for it and the branch
  \<^verbatim>\<open>m != nil\<close> at the call site is always taken.
\<close>

theorem C10_decodeFrame_total:
  "(decodeFrame b = None) = (length b \<noteq> 14) \<and>
   (length b = 14 \<longrightarrow> (\<exists>m. decodeFrame b = Some m)) \<and>
   (\<forall>s fs f. feed sync_init bs = Some (s, fs) \<and> f \<in> set fs \<longrightarrow>
      (\<exists>m. decodeFrame f = Some m \<and> deliver f = [SetLatest m, Push m, FrameOK]))"
proof (intro conjI allI impI)
  show "(decodeFrame b = None) = (length b \<noteq> 14)"
    by (rule decodeFrame_None_iff)
  show "\<exists>m. decodeFrame b = Some m" if "length b = 14"
    using that by (simp add: decodeFrame_def)
next
  fix s fs f
  assume "feed sync_init bs = Some (s, fs) \<and> f \<in> set fs"
  then have "tagged f" using feed_init_frames by blast
  then have "length f = 14" by (simp add: tagged_iff)
  then obtain m where "decodeFrame f = Some m" by (simp add: decodeFrame_def)
  then show "\<exists>m. decodeFrame f = Some m \<and> deliver f = [SetLatest m, Push m, FrameOK]"
    by (simp add: deliver_def)
qed

lemma feed_1234:
  "feed sync_init frame_1234 = Some (\<lparr> frame = frame_1234, idx = 0 \<rparr>, [frame_1234])"
  using feed_frame [OF sync_wf_init tagged_1234] .

theorem C10_witness:
  "length frame_1234 = 14 \<and>
   feed sync_init frame_1234 = Some (\<lparr> frame = frame_1234, idx = 0 \<rparr>, [frame_1234]) \<and>
   frame_1234 \<in> set [frame_1234] \<and>
   (\<exists>m. decodeFrame frame_1234 = Some m \<and> deliver frame_1234 = [SetLatest m, Push m, FrameOK])"
proof -
  have l: "length frame_1234 = 14" by (simp add: frame_1234_def)
  have "feed sync_init frame_1234 = Some (\<lparr> frame = frame_1234, idx = 0 \<rparr>, [frame_1234]) \<and>
      frame_1234 \<in> set [frame_1234]"
    using feed_1234 by simp
  with C10_decodeFrame_total [of frame_1234 frame_1234] l show ?thesis
    by blast
qed

section \<open>Properties of the manager\<close>

lemma Start_result:
  "Start port baud w =
     (\<lparr> mgr = (mgr w)\<lparr> cancel := Some (length (ctxs w)), running := True,
                status := (status (mgr w))\<lparr> Port := port, Baud := baud, Connected := False,
                                              LastError := '''' \<rparr> \<rparr>,
         ctxs = (if running (mgr w) \<and> cancel (mgr w) \<noteq> None
                 then call_cancel (the (cancel (mgr w))) (ctxs w) else ctxs w) @ [False] \<rparr>,
      None)"
  by (simp add: Start_def Let_def call_cancel_def)

lemma Stop_result:
  "Stop w =
     \<lparr> mgr = (mgr w)\<lparr> running := False, status := (status (mgr w))\<lparr> Connected := False \<rparr> \<rparr>,
       ctxs = (case cancel (mgr w) of None \<Rightarrow> ctxs w | Some k \<Rightarrow> call_cancel k (ctxs w)) \<rparr>"
  by (simp add: Stop_def Let_def)

lemma GetStatus_connected:
  "Connected (GetStatus now m) =
     (LastFrameAt (status m) \<noteq> 0 \<and> Since now (LastFrameAt (status m)) \<le> staleAfter m \<and>
      LastError (status m) = '''')"
  by (simp add: GetStatus_def Let_def IsZero_def)

lemma GetStatus_ignores_flag:
  "GetStatus now (m\<lparr> status := (status m)\<lparr> Connected := c \<rparr> \<rparr>) = GetStatus now m"
  by (simp add: GetStatus_def Let_def)

lemma GetStatus_fields:
  "Port (GetStatus now m) = Port (status m)" "Baud (GetStatus now m) = Baud (status m)"
  "LastFrameAt (GetStatus now m) = LastFrameAt (status m)"
  "LastError (GetStatus now m) = LastError (status m)"
  by (simp_all add: GetStatus_def Let_def)

lemma Since_plain:
  assumes "minDuration \<le> d" and "d < maxDuration"
  shows "(Since now t \<le> d) = (now - t \<le> d)"
  using assms by (auto simp add: Since_def)

lemma mgr_inv_New: "mgr_inv (NewManager stale)"
  by (simp add: mgr_inv_def NewManager_def Let_def)

lemma mgr_inv_Start:
  assumes "mgr_inv w"
  shows "mgr_inv (fst (Start port baud w))"
    and "\<forall>j<length (ctxs w). ctxs (fst (Start port baud w)) ! j"
proof -
  let ?cs = "if running (mgr w) \<and> cancel (mgr w) \<noteq> None
             then call_cancel (the (cancel (mgr w))) (ctxs w) else ctxs w"
  have len: "length ?cs = length (ctxs w)" by (simp add: call_cancel_def)
  have all: "list_all id ?cs"
  proof (cases "cancel (mgr w)")
    case None
    with assms show ?thesis by (simp add: mgr_inv_def)
  next
    case (Some k)
    with assms have k: "Suc k = length (ctxs w)" and old: "list_all id (take k (ctxs w))"
      and cur: "running (mgr w) \<or> ctxs w ! k"
      by (simp_all add: mgr_inv_def)
    have "?cs ! j" if "j < length (ctxs w)" for j
    proof (cases "j = k")
      case True
      with cur Some k show ?thesis by (auto simp add: call_cancel_def)
    next
      case False
      with that k have "j < k" by simp
      with old k have "ctxs w ! j" by (simp add: list_all_length)
      with \<open>j < k\<close> k Some show ?thesis by (simp add: call_cancel_def)
    qed
    with len show ?thesis by (simp add: list_all_length)
  qed
  show "mgr_inv (fst (Start port baud w))"
    using all len by (simp add: Start_result mgr_inv_def)
  show "\<forall>j<length (ctxs w). ctxs (fst (Start port baud w)) ! j"
    using all len by (simp add: Start_result list_all_length nth_append)
qed

lemma mgr_inv_Stop:
  assumes "mgr_inv w"
  shows "mgr_inv (Stop w)" and "list_all id (ctxs (Stop w))"
proof -
  show "mgr_inv (Stop w)"
  proof (cases "cancel (mgr w)")
    case None
    with assms show ?thesis by (simp add: Stop_result mgr_inv_def)
  next
    case (Some k)
    with assms have k: "Suc k = length (ctxs w)" and old: "list_all id (take k (ctxs w))"
      by (simp_all add: mgr_inv_def)
    from k old Some show ?thesis
      by (simp add: Stop_result mgr_inv_def call_cancel_def)
  qed
  show "list_all id (ctxs (Stop w))"
  proof (cases "cancel (mgr w)")
    case None
    with assms show ?thesis by (simp add: Stop_result mgr_inv_def)
  next
    case (Some k)
    with assms have k: "Suc k = length (ctxs w)" and old: "list_all id (take k (ctxs w))"
      by (simp_all add: mgr_inv_def)
    have "(ctxs w)[k := True] ! j" if "j < length (ctxs w)" for j
    proof (cases "j = k")
      case True
      with that show ?thesis by simp
    next
      case False
      with that k have "j < k" by simp
      with old k have "ctxs w ! j" by (simp add: list_all_length)
      with False show ?thesis by simp
    qed
    then show ?thesis
      using Some by (simp add: Stop_result call_cancel_def list_all_length)
  qed
qed

lemma mgr_inv_apply_op:
  assumes "mgr_inv w"
  shows "mgr_inv (apply_op w x)"
proof (cases x)
  case (OpStart port baud)
  with mgr_inv_Start(1) [OF assms] show ?thesis by simp
next
  case OpStop
  with mgr_inv_Stop(1) [OF assms] show ?thesis by simp
next
  case (OpFrameOK now)
  with assms show ?thesis by (simp add: mgr_inv_def split: option.splits)
qed

lemma mgr_inv_foldl:
  assumes "mgr_inv w"
  shows "mgr_inv (foldl apply_op w ops)"
  using assms by (induction ops arbitrary: w) (simp_all add: mgr_inv_apply_op)

lemma mgr_inv_history: "mgr_inv (history stale ops)"
  unfolding history_def by (rule mgr_inv_foldl [OF mgr_inv_New])

lemma stale_apply_op: "staleAfter (mgr (apply_op w x)) = staleAfter (mgr w)"
  by (cases x) (simp_all add: Start_result Stop_result)

lemma stale_foldl: "staleAfter (mgr (foldl apply_op w ops)) = staleAfter (mgr w)"
  by (induction ops arbitrary: w) (simp_all add: stale_apply_op)

lemma stale_history:
  "staleAfter (mgr (history stale ops)) = (if stale \<le> 0 then 3 * Second else stale)"
  by (simp add: history_def stale_foldl) (simp add: NewManager_def Let_def)

lemma world_streaming_eq:
  "world_streaming =
     \<lparr> mgr = \<lparr> cancel = Some 0, running = True, staleAfter = 3000000000,
               status = \<lparr> Port = ''COM3'', Baud = 2400, Connected = False,
                          LastFrameAt = 5000000000, LastError = '''' \<rparr> \<rparr>,
       ctxs = [False] \<rparr>"
  by (simp add: world_streaming_def history_def NewManager_def Start_result on_action_def
      Second_def Let_def)

text \<open>
  C3. For every manager state and every time of the call, GetStatus reports connected
  exactly when the last-frame timestamp is not the zero time, the time since it is at
  most the staleness threshold and the last error is empty; for a threshold inside the
  range of a Duration the time since it is the plain difference. The stored flag plays no
  part: whatever it holds, the answer is the same. The threshold of a manager made with
  a non-positive value is 3 seconds, and no call of Start or Stop and no callback
  changes it.
\<close>

theorem C3_connected_derived:
  "Connected (GetStatus now m) =
     (\<not> IsZero (LastFrameAt (status m)) \<and> Since now (LastFrameAt (status m)) \<le> staleAfter m \<and>
      LastError (status m) = '''') \<and>
   (0 < staleAfter m \<and> staleAfter m < maxDuration \<longrightarrow>
      Connected (GetStatus now m) =
        (LastFrameAt (status m) \<noteq> 0 \<and> now - LastFrameAt (status m) \<le> staleAfter m \<and>
         LastError (status m) = '''')) \<and>
   GetStatus now (m\<lparr> status := (status m)\<lparr> Connected := c \<rparr> \<rparr>) = GetStatus now m \<and>
   staleAfter (mgr (history stale ops)) = (if stale \<le> 0 then 3 * Second else stale)"
proof -
  have "(Since now t \<le> staleAfter m) = (now - t \<le> staleAfter m)"
    if "0 < staleAfter m" "staleAfter m < maxDuration" for t
    using that by (intro Since_plain) (simp_all add: minDuration_def)
  then show ?thesis
    by (simp add: GetStatus_connected GetStatus_ignores_flag stale_history IsZero_def)
qed

theorem C3_witness:
  "0 < staleAfter (mgr world_streaming) \<and> staleAfter (mgr world_streaming) < maxDuration \<and>
   Connected (GetStatus (6 * Second) (mgr world_streaming)) \<and>
   \<not> Connected (GetStatus (9 * Second) (mgr world_streaming))"
proof -
  have h: "0 < staleAfter (mgr world_streaming) \<and> staleAfter (mgr world_streaming) < maxDuration"
    by (simp add: world_streaming_eq maxDuration_def)
  note plain = C3_connected_derived [THEN conjunct2, THEN conjunct1, rule_format, OF h]
  have a: "Connected (GetStatus (6 * Second) (mgr world_streaming))"
    unfolding plain [of "6 * Second"]
    by (simp add: world_streaming_eq Second_def)
  have b: "\<not> Connected (GetStatus (9 * Second) (mgr world_streaming))"
    unfolding plain [of "9 * Second"]
    by (simp add: world_streaming_eq Second_def)
  from h a b show ?thesis by simp
qed




text \<open>
  C9, as the code has it. For every manager state, after Stop the context of the loop
  held by the manager is cancelled (every context, in a state that a history of calls
  reaches), the manager is not running and the stored flag is false. Stop leaves the
  last-frame timestamp, the last error and the threshold as they were, so GetStatus
  answers after Stop what it answered before: connected is false as soon as the time
  since the last frame exceeds the threshold.
\<close>

theorem C9_stop_status_derived:
  "(\<forall>k. cancel (mgr w) = Some k \<and> k < length (ctxs w) \<longrightarrow> ctxs (Stop w) ! k) \<and>
   list_all id (ctxs (Stop (history stale ops))) \<and>
   \<not> running (mgr (Stop w)) \<and> \<not> Connected (status (mgr (Stop w))) \<and>
   LastFrameAt (status (mgr (Stop w))) = LastFrameAt (status (mgr w)) \<and>
   LastError (status (mgr (Stop w))) = LastError (status (mgr w)) \<and>
   staleAfter (mgr (Stop w)) = staleAfter (mgr w) \<and>
   Connected (GetStatus now (mgr (Stop w))) = Connected (GetStatus now (mgr w)) \<and>
   (staleAfter (mgr w) < Since now (LastFrameAt (status (mgr w))) \<longrightarrow>
      \<not> Connected (GetStatus now (mgr (Stop w))))"
proof -
  have a: "ctxs (Stop w) ! k" if "cancel (mgr w) = Some k" "k < length (ctxs w)" for k
    using that by (simp add: Stop_result call_cancel_def)
  have b: "list_all id (ctxs (Stop (history stale ops)))"
    by (rule mgr_inv_Stop(2) [OF mgr_inv_history])
  show ?thesis
    using a b by (simp add: Stop_result GetStatus_connected)
qed

text \<open>
  The claim as the specification states it fails one second after a frame: the loop is
  cancelled, and GetStatus reports connected.
\<close>

theorem C9_counterexample:
  "ctxs (Stop world_streaming) = [True] \<and> \<not> running (mgr (Stop world_streaming)) \<and>
   Connected (GetStatus (6 * Second) (mgr (Stop world_streaming)))"
  by (simp add: world_streaming_eq Stop_result call_cancel_def GetStatus_def IsZero_def Since_def
      maxDuration_def minDuration_def Second_def)

theorem C9_witness:
  "cancel (mgr world_streaming) = Some 0 \<and> 0 < length (ctxs world_streaming) \<and>
   ctxs (Stop world_streaming) ! 0 \<and>
   staleAfter (mgr world_streaming) < Since (9 * Second) (LastFrameAt (status (mgr world_streaming))) \<and>
   \<not> Connected (GetStatus (9 * Second) (mgr (Stop world_streaming)))"
proof -
  have h1: "cancel (mgr world_streaming) = Some 0 \<and> 0 < length (ctxs world_streaming)"
    by (simp add: world_streaming_eq)
  have h2: "staleAfter (mgr world_streaming)
      < Since (9 * Second) (LastFrameAt (status (mgr world_streaming)))"
    by (simp add: world_streaming_eq Since_def maxDuration_def minDuration_def Second_def)
  note inst = C9_stop_status_derived [of world_streaming 0 "[]" "9 * Second"]
  from inst h1 have a: "ctxs (Stop world_streaming) ! 0" by blast
  from inst h2 have b: "\<not> Connected (GetStatus (9 * Second) (mgr (Stop world_streaming)))"
    by blast
  from h1 h2 a b show ?thesis by simp
qed

section \<open>Properties of RunLoop and of the goroutine that runs it\<close>

lemma loop_step_no_io:
  assumes "\<not> returned_io ph"
  shows "\<not> returned_io (fst (loop_step ph ev))"
  using assms
  by (induction ph ev rule: loop_step.induct) (simp_all split: option.splits)

lemma on_actions_last_error:
  "LastError (foldl (\<lambda>s a. on_action now a s) st acts) = LastError st \<or>
   LastError (foldl (\<lambda>s a. on_action now a s) st acts) = ''''"
proof (induction acts arbitrary: st)
  case Nil
  then show ?case by simp
next
  case (Cons a acts)
  have "LastError (on_action now a st) = LastError st \<or> LastError (on_action now a st) = ''''"
    by (simp add: on_action_def split: action.splits)
  with Cons [of "on_action now a st"] show ?case by auto
qed

lemma goroutine_last_error:
  assumes "\<not> returned_io ph"
  shows "LastError (fst (snd (goroutine es ph st))) = LastError st \<or>
         LastError (fst (snd (goroutine es ph st))) = ''''"
  using assms
proof (induction es arbitrary: ph st)
  case Nil
  then show ?case by simp
next
  case (Cons x es)
  obtain now ev where x: "x = (now, ev)" by (cases x)
  obtain ph' acts where step: "loop_step ph ev = (ph', acts)" by (cases "loop_step ph ev")
  let ?st1 = "foldl (\<lambda>s a. on_action now a s) st acts"
  from loop_step_no_io [OF Cons.prems, of ev] step have ok: "\<not> returned_io ph'" by simp
  note st1 = on_actions_last_error [of now st acts]
  show ?case
  proof (cases "\<exists>err. ph' = Returned err")
    case True
    then obtain err where r: "ph' = Returned err" by blast
    with ok have "err = Canceled" by (cases err) simp_all
    with r x step st1 show ?thesis by (simp add: on_return_def)
  next
    case False
    then have "goroutine (x # es) ph st =
        (let (ph'', st2, acts') = goroutine es ph' ?st1 in (ph'', st2, acts @ acts'))"
      using x step by (cases ph') simp_all
    then have "fst (snd (goroutine (x # es) ph st)) = fst (snd (goroutine es ph' ?st1))"
      by (simp add: split_beta)
    with Cons.IH [OF ok, of ?st1] st1 show ?thesis by auto
  qed
qed

lemma run_unplug:
  "goroutine [(1 * Second, OpenResult None), (2 * Second, ReadResult (Inl ''EOF'')),
              (3 * Second, TimerFired)]
     Connecting (status (mgr (fst (Start ''COM3'' 2400 (NewManager 0))))) =
   (Connecting,
    \<lparr> Port = ''COM3'', Baud = 2400, Connected = False, LastFrameAt = 0, LastError = '''' \<rparr>,
    [OpenPort, Close, Slept 400])"
  by (simp add: Start_def NewManager_def Let_def on_action_def)

text \<open>
  C5, evaluated on the code. A read error while streaming closes the port and, after
  the wait of 400 ms, RunLoop is back at the top of the reconnect loop; the status is
  the one before the error, so the text of the error is not in it. No script of events
  makes the goroutine write anything but the empty string to the last error: RunLoop
  returns \<^verbatim>\<open>ctx.Err()\<close> only.
\<close>

theorem C5_read_error_not_recorded:
  "goroutine [(1 * Second, OpenResult None), (2 * Second, ReadResult (Inl ''EOF'')),
              (3 * Second, TimerFired)]
     Connecting (status (mgr (fst (Start ''COM3'' 2400 (NewManager 0))))) =
   (Connecting,
    \<lparr> Port = ''COM3'', Baud = 2400, Connected = False, LastFrameAt = 0, LastError = '''' \<rparr>,
    [OpenPort, Close, Slept 400]) \<and>
   loop_step (Streaming s) (ReadResult (Inl e)) = (ReadBackoff, [Close]) \<and>
   loop_step ReadBackoff TimerFired = (Connecting, [Slept 400]) \<and>
   goroutine [(t1, ReadResult (Inl e)), (t2, TimerFired)] (Streaming s) st =
     (Connecting, st, [Close, Slept 400]) \<and>
   (LastError (fst (snd (goroutine es Connecting st))) = LastError st \<or>
    LastError (fst (snd (goroutine es Connecting st))) = '''')"
proof -
  have "goroutine [(t1, ReadResult (Inl e)), (t2, TimerFired)] (Streaming s) st =
      (Connecting, st, [Close, Slept 400])"
    by (simp add: on_action_def)
  moreover have "LastError (fst (snd (goroutine es Connecting st))) = LastError st \<or>
      LastError (fst (snd (goroutine es Connecting st))) = ''''"
    by (rule goroutine_last_error) simp
  ultimately show ?thesis
    using run_unplug by simp
qed

end
